theory Spec2Isabelle
  imports Main
begin

section \<open>The colour service: data model\<close>

text \<open>
  The service is one Go file, \<^verbatim>\<open>main.go\<close>. Go strings are byte sequences and are modelled
  as \<^typ>\<open>string\<close> (a list of 8-bit characters). Go's \<^verbatim>\<open>int\<close> is taken to be 64 bits wide; it
  is modelled as \<^typ>\<open>int\<close>, and the one place where the code does arithmetic on it (the
  conversion of seconds to a \<^verbatim>\<open>time.Duration\<close>) has the two's complement wrap-around written
  out. An \<^verbatim>\<open>error\<close> value is represented by its text, \<^verbatim>\<open>err.Error()\<close>.
\<close>

subsection \<open>The palette and the random colour selector\<close>

text \<open>The package-level variable \<^verbatim>\<open>colors\<close> (lines 36-43).\<close>

definition colors :: "string list" where
  "colors = [''red'', ''orange'', ''yellow'', ''green'', ''blue'', ''purple'']"

text \<open>
  Indexing a Go slice checks the bounds and panics outside them; \<open>None\<close> stands for the
  panic.
\<close>

definition index_slice :: "'a list \<Rightarrow> int \<Rightarrow> 'a option" where
  "index_slice xs i = (if 0 \<le> i \<and> i < int (length xs) then Some (xs ! nat i) else None)"

text \<open>
  \<^verbatim>\<open>randomColor\<close> (lines 279-281): \<^verbatim>\<open>colors[rand.Int()%len(colors)]\<close>. The argument is the
  value \<^verbatim>\<open>rand.Int()\<close> returned, which \<^verbatim>\<open>math/rand\<close> documents as a non-negative \<^verbatim>\<open>int\<close>,
  hence a \<^typ>\<open>nat\<close>; on non-negative operands Go's \<^verbatim>\<open>%\<close> is \<open>mod\<close>.
\<close>

definition randomColor :: "nat \<Rightarrow> string option" where
  "randomColor r = index_slice colors (int r mod int (length colors))"

subsection \<open>Per-request parameters and the environment\<close>

text \<open>
  \<^verbatim>\<open>type colorParameters struct\<close> (lines 147-153). The two probabilities are \<^verbatim>\<open>*int\<close>: a nil
  pointer is \<open>None\<close>.
\<close>

record colorParameters =
  Color :: string
  DelayProbability :: "int option"
  DelayLength :: int
  Return500Probability :: "int option"

text \<open>The zero value of the struct, as \<^verbatim>\<open>var colorParams colorParameters\<close> (line 212) makes it.\<close>

definition zeroParams :: colorParameters where
  "zeroParams =
     \<lparr>Color = [], DelayProbability = None, DelayLength = 0, Return500Probability = None\<rparr>"

text \<open>
  The package-level variables read from the environment when the process starts (lines 35,
  44, 45). \<^verbatim>\<open>os.Getenv\<close> gives the empty string for a variable that is not set.
\<close>

record environment =
  color :: string
  envErrorRate :: string
  envLatency :: string

subsection \<open>Durations\<close>

text \<open>
  \<^verbatim>\<open>time.Duration\<close> is an \<^verbatim>\<open>int64\<close> count of nanoseconds and \<^verbatim>\<open>time.Second\<close> is \<open>10\<^sup>9\<close>.
  Go's integer multiplication wraps: \<open>int64\<close> is the two's complement reading of the low
  64 bits.
\<close>

definition int64 :: "int \<Rightarrow> int" where
  "int64 k = (k + 2 ^ 63) mod 2 ^ 64 - 2 ^ 63"

definition Second :: int where
  "Second = 1000000000"

text \<open>\<^verbatim>\<open>time.Duration(n) * time.Second\<close>, for an \<^verbatim>\<open>int\<close> \<open>n\<close>.\<close>

definition seconds :: "int \<Rightarrow> int" where
  "seconds n = int64 (n * Second)"

section \<open>The formatter: \<^verbatim>\<open>fmt.Fprintf\<close> with a format and no operands\<close>

text \<open>
  On its error paths the handler calls \<^verbatim>\<open>fmt.Fprintf(w, err.Error())\<close>: the error text is
  the format string and there are no operands. What is written is therefore decided by
  \<^verbatim>\<open>doPrintf\<close> of Go's \<^verbatim>\<open>fmt\<close> package (file \<^verbatim>\<open>print.go\<close>), which is modelled here for an
  empty operand list, function by function: \<^verbatim>\<open>tooLarge\<close>, \<^verbatim>\<open>parsenum\<close>, \<^verbatim>\<open>parseArgNumber\<close>,
  \<^verbatim>\<open>argNumber\<close> and the body of the format loop. An index \<open>i\<close> into the format is
  represented by the text that remains from \<open>i\<close> on.
\<close>

subsection \<open>Runes\<close>

text \<open>
  The verb of a directive is a rune. \<^verbatim>\<open>utf8.DecodeRuneInString\<close> gives the rune and its width
  in bytes, \<^verbatim>\<open>utf8.RuneError\<close> with width 1 for an invalid encoding; \<open>first\<close> is the table of
  lead bytes (\<open>Some (size, lo, hi)\<close> for the lead byte of a multi-byte encoding, with the
  range accepted for the second byte). \<^verbatim>\<open>utf8.AppendRune\<close> encodes a rune.
\<close>

definition RuneError :: nat where "RuneError = 65533"
definition RuneSelf :: nat where "RuneSelf = 128"

definition first :: "nat \<Rightarrow> (nat \<times> nat \<times> nat) option" where
  "first b =
     (if 194 \<le> b \<and> b \<le> 223 then Some (2, 128, 191)
      else if b = 224 then Some (3, 160, 191)
      else if 225 \<le> b \<and> b \<le> 236 then Some (3, 128, 191)
      else if b = 237 then Some (3, 128, 159)
      else if 238 \<le> b \<and> b \<le> 239 then Some (3, 128, 191)
      else if b = 240 then Some (4, 144, 191)
      else if 241 \<le> b \<and> b \<le> 243 then Some (4, 128, 191)
      else if b = 244 then Some (4, 128, 143)
      else None)"

definition DecodeRuneInString :: "string \<Rightarrow> nat \<times> nat" where
  "DecodeRuneInString s =
     (if length s < 1 then (RuneError, 0)
      else
        let s0 = of_char (s ! 0) in
        (case first s0 of
           None \<Rightarrow> (if s0 < RuneSelf then s0 else RuneError, 1)
         | Some (sz, lo, hi) \<Rightarrow>
             if length s < sz then (RuneError, 1)
             else
               let s1 = of_char (s ! 1) in
               if s1 < lo \<or> hi < s1 then (RuneError, 1)
               else if sz \<le> 2 then ((s0 mod 32) * 64 + s1 mod 64, 2)
               else
                 let s2 = of_char (s ! 2) in
                 if s2 < 128 \<or> 191 < s2 then (RuneError, 1)
                 else if sz \<le> 3 then ((s0 mod 16) * 4096 + (s1 mod 64) * 64 + s2 mod 64, 3)
                 else
                   let s3 = of_char (s ! 3) in
                   if s3 < 128 \<or> 191 < s3 then (RuneError, 1)
                   else ((s0 mod 8) * 262144 + (s1 mod 64) * 4096 + (s2 mod 64) * 64
                           + s3 mod 64, 4)))"

definition AppendRune :: "nat \<Rightarrow> string" where
  "AppendRune r =
     (if r \<le> 127 then [char_of r]
      else if r \<le> 2047 then [char_of (192 + r div 64), char_of (128 + r mod 64)]
      else if r > 1114111 \<or> (55296 \<le> r \<and> r \<le> 57343) then
        [char_of (224 + RuneError div 4096), char_of (128 + RuneError div 64 mod 64),
         char_of (128 + RuneError mod 64)]
      else if r \<le> 65535 then
        [char_of (224 + r div 4096), char_of (128 + r div 64 mod 64), char_of (128 + r mod 64)]
      else
        [char_of (240 + r div 262144), char_of (128 + r div 4096 mod 64),
         char_of (128 + r div 64 mod 64), char_of (128 + r mod 64)])"

subsection \<open>Parsing a directive\<close>

text \<open>The strings of \<^verbatim>\<open>print.go\<close> that report a malformed directive.\<close>

definition percentBangString :: string where "percentBangString = ''%!''"
definition missingString :: string where "missingString = ''(MISSING)''"
definition badIndexString :: string where "badIndexString = ''(BADINDEX)''"
definition noVerbString :: string where "noVerbString = ''%!(NOVERB)''"
definition badWidthString :: string where "badWidthString = ''%!(BADWIDTH)''"
definition badPrecString :: string where "badPrecString = ''%!(BADPREC)''"

text \<open>
  \<^verbatim>\<open>parsenum(s, start, end)\<close> reads a decimal number. Its argument here is the segment
  \<open>s[start:end]\<close>, its result the number, whether there was one, and what remains of the
  segment. A number that grows beyond \<open>10\<^sup>6\<close> makes it give up and skip to \<open>end\<close>.
\<close>

definition tooLarge :: "int \<Rightarrow> bool" where
  "tooLarge x = (x > 1000000 \<or> x < - 1000000)"

definition isDigit :: "char \<Rightarrow> bool" where
  "isDigit c = (48 \<le> (of_char c :: nat) \<and> (of_char c :: nat) \<le> 57)"

fun parsenum_loop :: "int \<Rightarrow> bool \<Rightarrow> string \<Rightarrow> int \<times> bool \<times> string" where
  "parsenum_loop num isnum [] = (num, isnum, [])"
| "parsenum_loop num isnum (c # cs) =
     (if isDigit c then
        (if tooLarge num then (0, False, [])
         else parsenum_loop (num * 10 + (int (of_char c) - 48)) True cs)
      else (num, isnum, c # cs))"

definition parsenum :: "string \<Rightarrow> int \<times> bool \<times> string" where
  "parsenum seg = (if seg = [] then (0, False, []) else parsenum_loop 0 False seg)"

text \<open>
  \<^verbatim>\<open>parseArgNumber\<close> reads an explicit argument index \<^verbatim>\<open>[n]\<close>; the format given to it starts
  with the opening bracket. It returns the index, the number of bytes to skip, and whether
  the index was well formed.
\<close>

definition parseArgNumber :: "string \<Rightarrow> int \<times> nat \<times> bool" where
  "parseArgNumber format =
     (if length format < 3 then (0, 1, False)
      else
        let inside = takeWhile (\<lambda>c. c \<noteq> CHR '']'') (tl format);
            i = 1 + length inside
        in if i < length format then
             (case parsenum inside of
                (width, ok, rest) \<Rightarrow>
                  if \<not> ok \<or> rest \<noteq> [] then (0, i + 1, False) else (width - 1, i + 1, True))
           else (0, 1, False))"

text \<open>
  \<^verbatim>\<open>argNumber\<close>, for the call at hand: \<^verbatim>\<open>len(a)\<close> is 0, so no index is ever in range and
  \<^verbatim>\<open>argNum\<close> stays 0. The result is the remaining format, whether an index was found, and
  the flag \<^verbatim>\<open>p.goodArgNum\<close>.
\<close>

definition numArgs :: int where "numArgs = 0"

definition argNumber :: "string \<Rightarrow> bool \<Rightarrow> string \<times> bool \<times> bool" where
  "argNumber format goodArgNum =
     (if format = [] \<or> hd format \<noteq> CHR ''['' then (format, False, goodArgNum)
      else
        (case parseArgNumber format of
           (index, wid, ok) \<Rightarrow>
             if ok \<and> 0 \<le> index \<and> index < numArgs then (drop wid format, True, goodArgNum)
             else (drop wid format, ok, False)))"

text \<open>
  One pass of the format loop after a \<^verbatim>\<open>%\<close>: flags, an argument index, the width, the
  precision, an argument index again, and the verb. With no operand, a \<^verbatim>\<open>*\<close> width or
  precision finds no integer (\<^verbatim>\<open>intFromArg\<close>), and every verb but \<^verbatim>\<open>%\<close> finds its operand
  missing. Each part returns what it wrote and the remaining format.
\<close>

definition isFlag :: "char \<Rightarrow> bool" where
  "isFlag c = (c = CHR ''#'' \<or> c = CHR ''0'' \<or> c = CHR ''+'' \<or> c = CHR ''-'' \<or> c = CHR '' '')"

definition widthPart :: "string \<Rightarrow> bool \<Rightarrow> bool \<Rightarrow> string \<times> string \<times> bool \<times> bool" where
  "widthPart format afterIndex goodArgNum =
     (if format \<noteq> [] \<and> hd format = CHR ''*'' then (badWidthString, tl format, False, goodArgNum)
      else
        (case parsenum format of
           (wid, widPresent, rest) \<Rightarrow>
             ([], rest, afterIndex, goodArgNum \<and> \<not> (afterIndex \<and> widPresent))))"

definition precPart :: "string \<Rightarrow> bool \<Rightarrow> bool \<Rightarrow> string \<times> string \<times> bool \<times> bool" where
  "precPart format afterIndex goodArgNum =
     (if format \<noteq> [] \<and> hd format = CHR ''.'' then
        (case argNumber (tl format) (goodArgNum \<and> \<not> afterIndex) of
           (format', afterIndex', goodArgNum') \<Rightarrow>
             if format' \<noteq> [] \<and> hd format' = CHR ''*'' then
               (badPrecString, tl format', False, goodArgNum')
             else
               (case parsenum format' of
                  (prec, precPresent, rest) \<Rightarrow> ([], rest, afterIndex', goodArgNum')))
      else ([], format, afterIndex, goodArgNum))"

definition verbPart :: "string \<Rightarrow> bool \<Rightarrow> string \<times> string" where
  "verbPart format goodArgNum =
     (if format = [] then (noVerbString, [])
      else
        (case (if of_char (hd format) \<ge> RuneSelf then DecodeRuneInString format
               else (of_char (hd format), 1)) of
           (verb, w) \<Rightarrow>
             if verb = of_char CHR ''%'' then (''%'', drop w format)
             else if \<not> goodArgNum then
               (percentBangString @ AppendRune verb @ badIndexString, drop w format)
             else (percentBangString @ AppendRune verb @ missingString, drop w format)))"

definition directive :: "string \<Rightarrow> string \<times> string" where
  "directive format =
     (case argNumber (dropWhile isFlag format) True of
        (f1, afterIndex1, good1) \<Rightarrow>
     (case widthPart f1 afterIndex1 good1 of
        (outW, f2, afterIndex2, good2) \<Rightarrow>
     (case precPart f2 afterIndex2 good2 of
        (outP, f3, afterIndex3, good3) \<Rightarrow>
     (case (if \<not> afterIndex3 then argNumber f3 good3 else (f3, afterIndex3, good3)) of
        (f4, afterIndex4, good4) \<Rightarrow>
     (case verbPart f4 good4 of
        (outV, rest) \<Rightarrow> (outW @ outP @ outV, rest))))))"

subsection \<open>The format loop\<close>

text \<open>
  \<^verbatim>\<open>doPrintf(format, nil)\<close>: text up to a \<^verbatim>\<open>%\<close> is copied (byte by byte here, as one
  run in the source), a directive writes what \<open>directive\<close> says, and the loop goes on
  with what the directive left. A directive with no verb ends the format, so the
  \<^verbatim>\<open>break\<close> of the source is the loop's own end. With no operands there is nothing to
  report as extra after the loop.
\<close>

function doPrintf :: "string \<Rightarrow> string" where
  "doPrintf [] = []"
| "doPrintf (c # cs) =
     (if c \<noteq> CHR ''%'' then c # doPrintf cs
      else (case directive cs of (out, rest) \<Rightarrow> out @ doPrintf rest))"
  by pat_completeness auto

text \<open>
  A shape of texts used to describe what a directive writes: every \<^verbatim>\<open>%\<close> is the last byte
  or is followed by \<^verbatim>\<open>!\<close>.
\<close>

fun pct_ok :: "string \<Rightarrow> bool" where
  "pct_ok [] = True"
| "pct_ok (c # cs) = ((c \<noteq> CHR ''%'' \<or> cs = [] \<or> hd cs = CHR ''!'') \<and> pct_ok cs)"

section \<open>The request handler\<close>

subsection \<open>What a request can change\<close>

text \<open>
  A request acts on its \<^verbatim>\<open>http.ResponseWriter\<close> (status line, header map, body), on the
  clock (\<^verbatim>\<open>time.Sleep\<close>), on the log, and on the process-wide random source of
  \<^verbatim>\<open>math/rand\<close>. The random source is the sequence of the values its next calls return;
  a call takes the first and leaves the rest.
\<close>

datatype log_line =
    LogError string
  | LogBodyError string string
  | LogDelaying string int
  | LogReturning500
  | LogSuccessful string
  | Log500 string

record world =
  status :: "nat option"
  header :: "string \<rightharpoonup> string"
  body :: string
  slept :: "int list"
  logged :: "log_line list"
  rand :: "nat \<Rightarrow> nat"

text \<open>The state in which a request starts: nothing written yet.\<close>

definition fresh :: "(nat \<Rightarrow> nat) \<Rightarrow> world" where
  "fresh src =
     \<lparr>status = None, header = Map.empty, body = [], slept = [], logged = [], rand = src\<rparr>"

text \<open>
  \<^verbatim>\<open>w.WriteHeader(code)\<close>: the first call fixes the status. \<^verbatim>\<open>w.Write\<close>: a body written before
  any status sends 200 first.
\<close>

definition WriteHeader :: "nat \<Rightarrow> world \<Rightarrow> world" where
  "WriteHeader code w = (if status w = None then w\<lparr>status := Some code\<rparr> else w)"

definition Write :: "string \<Rightarrow> world \<Rightarrow> world" where
  "Write s w = (let w' = WriteHeader 200 w in w'\<lparr>body := body w' @ s\<rparr>)"

definition Header_Set :: "string \<Rightarrow> string \<Rightarrow> world \<Rightarrow> world" where
  "Header_Set k v w = w\<lparr>header := (header w)(k \<mapsto> v)\<rparr>"

definition log_Print :: "log_line \<Rightarrow> world \<Rightarrow> world" where
  "log_Print l w = w\<lparr>logged := logged w @ [l]\<rparr>"

text \<open>\<^verbatim>\<open>time.Sleep(d)\<close>: the durations asked for are recorded, in nanoseconds, in call order.\<close>

definition time_Sleep :: "int \<Rightarrow> world \<Rightarrow> world" where
  "time_Sleep d w = w\<lparr>slept := slept w @ [d]\<rparr>"

text \<open>
  \<^verbatim>\<open>rand.Int()\<close> and \<^verbatim>\<open>rand.Intn(100)\<close>: the value returned and the source advanced by one
  call. The library promises a non-negative value, and below 100 for \<^verbatim>\<open>Intn(100)\<close>.
\<close>

definition rand_next :: "world \<Rightarrow> nat \<times> world" where
  "rand_next w = (rand w 0, w\<lparr>rand := (\<lambda>n. rand w (Suc n))\<rparr>)"

text \<open>The state that such a call leaves, by itself: it is used to state results.\<close>

definition drawn :: "world \<Rightarrow> world" where
  "drawn w = w\<lparr>rand := (\<lambda>n. rand w (Suc n))\<rparr>"

text \<open>\<^verbatim>\<open>fmt.Fprintf(w, format)\<close> with no operand, and \<^verbatim>\<open>fmt.Fprintf(w, "\"%s\"", s)\<close>.\<close>

definition Fprintf_format :: "string \<Rightarrow> world \<Rightarrow> world" where
  "Fprintf_format format w = Write (doPrintf format) w"

definition quoted :: "string \<Rightarrow> string" where
  "quoted s = CHR 0x22 # s @ [CHR 0x22]"

definition Fprintf_quoted :: "string \<Rightarrow> world \<Rightarrow> world" where
  "Fprintf_quoted s w = Write (quoted s) w"

subsection \<open>\<^verbatim>\<open>printColor\<close> (lines 251-277)\<close>

definition printColor :: "string \<Rightarrow> bool \<Rightarrow> world \<Rightarrow> world option" where
  "printColor colorToPrint healthy w =
     (let w1 = Header_Set ''Content-Type'' ''text/plain; charset=utf-8'' w;
          w2 = Header_Set ''X-Content-Type-Options'' ''nosniff'' w1;
          w3 = (if healthy then WriteHeader 200 w2
                else WriteHeader 500 (log_Print LogReturning500 w2))
      in if colorToPrint = [] then
           (case rand_next w3 of
              (r, w4) \<Rightarrow>
                (case randomColor r of
                   None \<Rightarrow> None
                 | Some c \<Rightarrow>
                     Some (Fprintf_quoted c
                       (log_Print (if healthy then LogSuccessful c else Log500 c) w4))))
         else
           Some (Fprintf_quoted colorToPrint
             (log_Print (if healthy then LogSuccessful colorToPrint else Log500 colorToPrint)
                w3)))"

subsection \<open>\<^verbatim>\<open>getColor\<close> (lines 187-249)\<close>

text \<open>
  The handler uses two library parsers whose results are all that matters here; they are
  parameters of the model: \<open>Unmarshal\<close> is \<^verbatim>\<open>json.Unmarshal\<close> into a
  \<^verbatim>\<open>[]colorParameters\<close> (the error text, or the decoded slice), and \<open>Atoi\<close> is
  \<^verbatim>\<open>strconv.Atoi\<close>. The result of \<^verbatim>\<open>ioutil.ReadAll(r.Body)\<close> is the handler's input.

  The four error exits all do the same three things (lines 190-192, 200-202, 223-225,
  239-241), with one log line or the other.
\<close>

definition fail500 :: "log_line \<Rightarrow> string \<Rightarrow> world \<Rightarrow> world" where
  "fail500 l err w = Fprintf_format err (log_Print l (WriteHeader 500 w))"

text \<open>Lines 196-205: the body is decoded unless it is empty or the literal \<^verbatim>\<open>"[]"\<close>.\<close>

definition sentinel :: string where
  "sentinel = [CHR 0x22, CHR ''['', CHR '']'', CHR 0x22]"

definition decodeRequest ::
  "(string \<Rightarrow> string + colorParameters list) \<Rightarrow> string \<Rightarrow> string + colorParameters list" where
  "decodeRequest Unmarshal requestBody =
     (if length requestBody > 0 \<and> requestBody \<noteq> sentinel then Unmarshal requestBody
      else Inr [])"

text \<open>Lines 212-218: the loop over the request keeps the last record of the colour.\<close>

definition selectParams :: "string \<Rightarrow> colorParameters list \<Rightarrow> colorParameters" where
  "selectParams colorToReturn request =
     foldl (\<lambda>colorParams cp. if Color cp = colorToReturn then cp else colorParams)
       zeroParams request"

text \<open>
  Lines 220-233, the delay. \<open>Inl\<close> is the handler's early return with the response
  written, \<open>Inr\<close> the state in which it goes on. Go's \<^verbatim>\<open>&&\<close> evaluates \<^verbatim>\<open>rand.Intn(100)\<close>
  only when the probability is there and positive.
\<close>

definition delayDecision ::
  "(string \<Rightarrow> string + int) \<Rightarrow> environment \<Rightarrow> string \<Rightarrow> string \<Rightarrow> colorParameters \<Rightarrow> world
     \<Rightarrow> world + world" where
  "delayDecision Atoi env requestBody colorToReturn colorParams w =
     (if envLatency env \<noteq> [] then
        (case Atoi (envLatency env) of
           Inl err \<Rightarrow> Inl (fail500 (LogBodyError requestBody err) err w)
         | Inr latency \<Rightarrow>
             Inr (time_Sleep (seconds latency) (log_Print (LogDelaying colorToReturn latency) w)))
      else
        (case DelayProbability colorParams of
           None \<Rightarrow> Inr w
         | Some p \<Rightarrow>
             if p > 0 then
               (case rand_next w of
                  (d, w') \<Rightarrow>
                    if p \<ge> int d then
                      Inr (time_Sleep (seconds (DelayLength colorParams))
                        (log_Print (LogDelaying colorToReturn (DelayLength colorParams)) w'))
                    else Inr w')
             else Inr w))"

text \<open>Lines 235-247, the verdict: \<open>returnSuccess\<close> and the state.\<close>

definition failureDecision ::
  "(string \<Rightarrow> string + int) \<Rightarrow> environment \<Rightarrow> string \<Rightarrow> colorParameters \<Rightarrow> world
     \<Rightarrow> world + bool \<times> world" where
  "failureDecision Atoi env requestBody colorParams w =
     (if envErrorRate env \<noteq> [] then
        (case Atoi (envErrorRate env) of
           Inl err \<Rightarrow> Inl (fail500 (LogBodyError requestBody err) err w)
         | Inr errorRate \<Rightarrow>
             (case rand_next w of (d, w') \<Rightarrow> Inr (int d \<ge> errorRate, w')))
      else
        (case Return500Probability colorParams of
           None \<Rightarrow> Inr (True, w)
         | Some p \<Rightarrow>
             if p > 0 then
               (case rand_next w of (d, w') \<Rightarrow> Inr (if p \<ge> int d then False else True, w'))
             else Inr (True, w)))"

text \<open>
  Lines 207-210, the colour to return: the override when it is set, else the random colour
  \<open>c\<close> just drawn.
\<close>

definition resolvedColor :: "environment \<Rightarrow> string \<Rightarrow> string" where
  "resolvedColor env c = (if color env \<noteq> [] then color env else c)"

text \<open>
  Lines 207-248, what the handler does with a decoded request. \<^verbatim>\<open>randomColor()\<close> is called
  before the override is looked at (line 207), so one value of the random source is used
  either way.
\<close>

definition serveColor ::
  "(string \<Rightarrow> string + int) \<Rightarrow> environment \<Rightarrow> string \<Rightarrow> colorParameters list \<Rightarrow> world
     \<Rightarrow> world option" where
  "serveColor Atoi env requestBody request w =
     (case rand_next w of
        (r, w1) \<Rightarrow>
          (case randomColor r of
             None \<Rightarrow> None
           | Some c \<Rightarrow>
               let colorToReturn = resolvedColor env c;
                   colorParams = selectParams colorToReturn request
               in (case delayDecision Atoi env requestBody colorToReturn colorParams w1 of
                     Inl done \<Rightarrow> Some done
                   | Inr w2 \<Rightarrow>
                       (case failureDecision Atoi env requestBody colorParams w2 of
                          Inl done \<Rightarrow> Some done
                        | Inr (returnSuccess, w3) \<Rightarrow>
                            printColor colorToReturn returnSuccess w3))))"

text \<open>The whole handler. \<open>None\<close> is a panic of the handler's goroutine.\<close>

definition getColor ::
  "(string \<Rightarrow> string + colorParameters list) \<Rightarrow> (string \<Rightarrow> string + int) \<Rightarrow> environment
     \<Rightarrow> string + string \<Rightarrow> world \<Rightarrow> world option" where
  "getColor Unmarshal Atoi env readAll w =
     (case readAll of
        Inl err \<Rightarrow> Some (fail500 (LogError err) err w)
      | Inr requestBody \<Rightarrow>
          (case decodeRequest Unmarshal requestBody of
             Inl err \<Rightarrow> Some (fail500 (LogBodyError requestBody err) err w)
           | Inr request \<Rightarrow> serveColor Atoi env requestBody request w))"

section \<open>The shutdown goroutine (lines 117-135)\<close>

text \<open>
  The goroutine that \<^verbatim>\<open>main\<close> starts once is straight-line code around three things that
  come from outside: the signal received first, which case of the \<^verbatim>\<open>select\<close> fires, and what
  \<^verbatim>\<open>server.Shutdown\<close> returns. Its run is the sequence of what it does. \<^verbatim>\<open>time.NewTicker\<close>
  panics on a duration that is not positive; \<^verbatim>\<open>log.Fatalf\<close> exits the process with status 1,
  and the deferred calls (\<^verbatim>\<open>cancel\<close>, then \<^verbatim>\<open>delay.Stop\<close>) run only on a normal return.
\<close>

datatype signal = SIGINT | SIGTERM

datatype select_case = SecondSignal signal | TickerFired

datatype event =
    SetKeepAlivesEnabled bool
  | LogSignalCaught signal int
  | NewTicker int
  | PanicNonPositiveInterval
  | LogSecondSignal
  | ServerShutdown int
  | LogFatal string
  | OsExit nat
  | CloseDone
  | Cancel
  | TickerStop

definition shutdownGoroutine ::
  "int \<Rightarrow> signal \<Rightarrow> select_case \<Rightarrow> string option \<Rightarrow> event list" where
  "shutdownGoroutine terminationDelay sig fired shutdownErr =
     [SetKeepAlivesEnabled False, LogSignalCaught sig terminationDelay] @
     (if seconds terminationDelay \<le> 0 then [PanicNonPositiveInterval]
      else
        [NewTicker (seconds terminationDelay)] @
        (case fired of SecondSignal s \<Rightarrow> [LogSecondSignal] | TickerFired \<Rightarrow> []) @
        [ServerShutdown (30 * Second)] @
        (case shutdownErr of
           Some err \<Rightarrow> [LogFatal err, OsExit 1]
         | None \<Rightarrow> [CloseDone, Cancel, TickerStop]))"

section \<open>Properties of the formatter\<close>

subsection \<open>The format loop ends\<close>

text \<open>
  Every part of a directive returns a suffix of the format it was given, and a directive
  that is given some text uses at least one byte of it.
\<close>

lemma parsenum_loop_drop: "\<exists>k. snd (snd (parsenum_loop num isnum s)) = drop k s"
proof (induction s arbitrary: num isnum)
  case Nil
  then show ?case by simp
next
  case (Cons c cs)
  show ?case
  proof (cases "isDigit c")
    case False
    then have "snd (snd (parsenum_loop num isnum (c # cs))) = drop 0 (c # cs)" by simp
    then show ?thesis by blast
  next
    case True
    show ?thesis
    proof (cases "tooLarge num")
      case True
      with \<open>isDigit c\<close> have "snd (snd (parsenum_loop num isnum (c # cs))) = drop (length (c # cs)) (c # cs)"
        by simp
      then show ?thesis by blast
    next
      case False
      from Cons.IH [of "num * 10 + (int (of_char c) - 48)" True]
      obtain k where "snd (snd (parsenum_loop (num * 10 + (int (of_char c) - 48)) True cs)) = drop k cs"
        by blast
      with False \<open>isDigit c\<close>
      have "snd (snd (parsenum_loop num isnum (c # cs))) = drop (Suc k) (c # cs)" by simp
      then show ?thesis by blast
    qed
  qed
qed

lemma parsenum_drop: "\<exists>k. snd (snd (parsenum s)) = drop k s"
proof (cases "s = []")
  case True
  then show ?thesis by (simp add: parsenum_def)
next
  case False
  then show ?thesis using parsenum_loop_drop [of 0 False s] by (simp add: parsenum_def)
qed

lemma argNumber_drop: "\<exists>k. fst (argNumber s g) = drop k s"
proof (cases "s = [] \<or> hd s \<noteq> CHR ''[''")
  case True
  then have "fst (argNumber s g) = drop 0 s" by (auto simp: argNumber_def)
  then show ?thesis by blast
next
  case False
  obtain index wid ok where p: "parseArgNumber s = (index, wid, ok)" by (cases "parseArgNumber s")
  with False have "fst (argNumber s g) = drop wid s" by (simp add: argNumber_def)
  then show ?thesis by blast
qed

lemma widthPart_drop: "\<exists>k. fst (snd (widthPart s a g)) = drop k s"
proof (cases "s \<noteq> [] \<and> hd s = CHR ''*''")
  case True
  then have "fst (snd (widthPart s a g)) = drop 1 s" by (simp add: widthPart_def drop_Suc)
  then show ?thesis by blast
next
  case False
  obtain wid p rest where q: "parsenum s = (wid, p, rest)" by (cases "parsenum s")
  with parsenum_drop [of s] obtain k where "rest = drop k s" by auto
  with False q have "fst (snd (widthPart s a g)) = drop k s" by (auto simp: widthPart_def)
  then show ?thesis by blast
qed

lemma precPart_drop: "\<exists>k. fst (snd (precPart s a g)) = drop k s"
proof (cases "s \<noteq> [] \<and> hd s = CHR ''.''")
  case False
  then have "fst (snd (precPart s a g)) = drop 0 s" by (auto simp: precPart_def)
  then show ?thesis by blast
next
  case True
  obtain f a' g' where an: "argNumber (tl s) (g \<and> \<not> a) = (f, a', g')"
    by (cases "argNumber (tl s) (g \<and> \<not> a)")
  with argNumber_drop [of "tl s" "g \<and> \<not> a"] obtain j where f: "f = drop j (tl s)" by auto
  have tl: "\<exists>j. tl s = drop j s" by (metis drop_0 drop_Suc)
  show ?thesis
  proof (cases "f \<noteq> [] \<and> hd f = CHR ''*''")
    case star: True
    with True an have "fst (snd (precPart s a g)) = tl f" by (simp add: precPart_def)
    moreover have "\<exists>k. tl f = drop k f" by (metis drop_0 drop_Suc)
    ultimately show ?thesis using f tl by (metis drop_drop)
  next
    case nostar: False
    obtain prec pp rest where q: "parsenum f = (prec, pp, rest)" by (cases "parsenum f")
    with parsenum_drop [of f] obtain k where "rest = drop k f" by auto
    moreover from True an nostar q have "fst (snd (precPart s a g)) = rest"
      by (auto simp: precPart_def)
    ultimately show ?thesis using f tl by (metis drop_drop)
  qed
qed

lemma DecodeRuneInString_size: "s \<noteq> [] \<Longrightarrow> 1 \<le> snd (DecodeRuneInString s)"
  by (auto simp: DecodeRuneInString_def Let_def split: option.splits prod.splits)

lemma verbPart_drop: "\<exists>k. snd (verbPart s g) = drop k s \<and> (s \<noteq> [] \<longrightarrow> 1 \<le> k)"
proof (cases "s = []")
  case True
  then show ?thesis by (simp add: verbPart_def)
next
  case False
  obtain verb w where d: "(if of_char (hd s) \<ge> RuneSelf then DecodeRuneInString s
               else (of_char (hd s), 1)) = (verb, w)"
    by (cases "(if of_char (hd s) \<ge> RuneSelf then DecodeRuneInString s
               else (of_char (hd s) :: nat, 1 :: nat))") auto
  have w: "1 \<le> w" using d DecodeRuneInString_size [OF False] by (auto split: if_splits)
  from False d have "snd (verbPart s g) = drop w s" by (simp add: verbPart_def)
  with w show ?thesis by blast
qed

lemma directive_drop:
  "directive s = (E, r) \<Longrightarrow> \<exists>k. r = drop k s \<and> (s \<noteq> [] \<longrightarrow> 1 \<le> k)"
proof -
  assume d: "directive s = (E, r)"
  obtain f1 a1 g1 where s1: "argNumber (dropWhile isFlag s) True = (f1, a1, g1)"
    by (cases "argNumber (dropWhile isFlag s) True")
  obtain oW f2 a2 g2 where s2: "widthPart f1 a1 g1 = (oW, f2, a2, g2)"
    by (cases "widthPart f1 a1 g1")
  obtain oP f3 a3 g3 where s3: "precPart f2 a2 g2 = (oP, f3, a3, g3)"
    by (cases "precPart f2 a2 g2")
  obtain f4 a4 g4 where s4: "(if \<not> a3 then argNumber f3 g3 else (f3, a3, g3)) = (f4, a4, g4)"
    by (cases "(if \<not> a3 then argNumber f3 g3 else (f3, a3, g3))")
  obtain oV rest where s5: "verbPart f4 g4 = (oV, rest)"
    by (cases "verbPart f4 g4")
  from d s1 s2 s3 s4 s5 have r: "r = rest" by (simp add: directive_def)
  obtain k0 where k0: "dropWhile isFlag s = drop k0 s"
    by (metis dropWhile_eq_drop)
  obtain k1 where k1: "f1 = drop k1 (dropWhile isFlag s)"
    using argNumber_drop [of "dropWhile isFlag s" True] s1 by auto
  obtain k2 where k2: "f2 = drop k2 f1"
    using widthPart_drop [of f1 a1 g1] s2 by auto
  obtain k3 where k3: "f3 = drop k3 f2"
    using precPart_drop [of f2 a2 g2] s3 by auto
  obtain k4 where k4: "f4 = drop k4 f3"
    using argNumber_drop [of f3 g3] s4 by (cases a3) (auto intro: that [of 0])
  obtain k5 where k5: "rest = drop k5 f4" and pos: "f4 \<noteq> [] \<longrightarrow> 1 \<le> k5"
    using verbPart_drop [of f4 g4] s5 by auto
  have f4: "f4 = drop (k4 + k3 + k2 + k1 + k0) s"
    using k0 k1 k2 k3 k4 by (simp add: add.commute add.left_commute)
  have rs: "r = drop (k5 + (k4 + k3 + k2 + k1 + k0)) s"
    using r k5 f4 by simp
  show ?thesis
  proof (cases "f4 = []")
    case True
    with f4 have "length s \<le> k4 + k3 + k2 + k1 + k0" by simp
    then have "s \<noteq> [] \<longrightarrow> 1 \<le> k5 + (k4 + k3 + k2 + k1 + k0)"
      by (cases s) auto
    with rs show ?thesis by blast
  next
    case False
    with pos have "1 \<le> k5 + (k4 + k3 + k2 + k1 + k0)" by simp
    with rs show ?thesis by blast
  qed
qed

lemma directive_length: "directive s = (E, r) \<Longrightarrow> length r \<le> length s"
  using directive_drop [of s E r] by auto

termination doPrintf
  by (relation "measure length") (auto simp: less_Suc_eq_le dest: directive_length [OF sym])

subsection \<open>A format is written unchanged exactly when it has no \<^verbatim>\<open>%\<close>\<close>

text \<open>What a directive writes has the shape \<open>pct_ok\<close> and starts with \<^verbatim>\<open>%\<close>.\<close>

lemma pct_ok_no_pct: "CHR ''%'' \<notin> set s \<Longrightarrow> pct_ok s"
  by (induction s) auto

lemma pct_ok_append:
  "pct_ok a \<Longrightarrow> pct_ok b \<Longrightarrow> a = [] \<or> last a \<noteq> CHR ''%'' \<Longrightarrow> pct_ok (a @ b)"
  by (induction a) (auto split: if_splits)

lemma pct_ok_split: "pct_ok (w @ CHR ''%'' # t) \<Longrightarrow> t = [] \<or> hd t = CHR ''!''"
  by (induction w) auto

lemma char_of_pct: "char_of (n :: nat) = CHR ''%'' \<Longrightarrow> n mod 256 = 37"
proof -
  assume "char_of n = CHR ''%''"
  then have "of_char (char_of n) = (of_char CHR ''%'' :: nat)" by simp
  then show ?thesis by (simp add: of_char_of)
qed

lemma high_byte_no_pct: "128 \<le> n \<Longrightarrow> n < 256 \<Longrightarrow> char_of (n :: nat) \<noteq> CHR ''%''"
proof
  assume "128 \<le> n" "n < 256" "char_of n = CHR ''%''"
  from char_of_pct [OF this(3)] this(1,2) show False by simp
qed

lemma low_byte_no_pct: "r \<le> 127 \<Longrightarrow> r \<noteq> 37 \<Longrightarrow> char_of (r :: nat) \<noteq> CHR ''%''"
proof
  assume "r \<le> 127" "r \<noteq> 37" "char_of r = CHR ''%''"
  from char_of_pct [OF this(3)] this(1,2) show False by simp
qed

lemma cont_byte_no_pct: "char_of (128 + (k :: nat) mod 64) \<noteq> CHR ''%''"
proof (rule high_byte_no_pct)
  show "128 \<le> 128 + k mod 64" by simp
  have "k mod 64 < 64" by simp
  then show "128 + k mod 64 < 256" by linarith
qed

lemma AppendRune_no_pct: "r \<noteq> 37 \<Longrightarrow> CHR ''%'' \<notin> set (AppendRune r)"
proof -
  assume r: "r \<noteq> 37"
  have b2: "r \<le> 2047 \<Longrightarrow> char_of (192 + r div 64) \<noteq> CHR ''%''"
    by (rule high_byte_no_pct) simp_all
  have b6: "r \<le> 65535 \<Longrightarrow> char_of (224 + r div 4096) \<noteq> CHR ''%''"
    by (rule high_byte_no_pct) simp_all
  have b7: "r \<le> 1114111 \<Longrightarrow> char_of (240 + r div 262144) \<noteq> CHR ''%''"
    by (rule high_byte_no_pct) simp_all
  have b8: "char_of (224 + RuneError div 4096) \<noteq> CHR ''%''"
    by (rule high_byte_no_pct) (simp_all add: RuneError_def)
  consider (a) "r \<le> 127" | (b) "127 < r" "r \<le> 2047"
    | (c) "2047 < r" "r > 1114111 \<or> (55296 \<le> r \<and> r \<le> 57343)"
    | (d) "2047 < r" "\<not> (r > 1114111 \<or> (55296 \<le> r \<and> r \<le> 57343))" "r \<le> 65535"
    | (e) "65535 < r" "\<not> (r > 1114111 \<or> (55296 \<le> r \<and> r \<le> 57343))"
    by linarith
  then show ?thesis
  proof cases
    case a
    then have "AppendRune r = [char_of r]" by (simp add: AppendRune_def)
    with low_byte_no_pct [OF a r] show ?thesis by (metis empty_iff empty_set set_ConsD)
  next
    case b
    then have "AppendRune r = [char_of (192 + r div 64), char_of (128 + r mod 64)]"
      by (auto simp add: AppendRune_def)
    with b2 b cont_byte_no_pct [of r] show ?thesis by (metis empty_iff empty_set set_ConsD)
  next
    case c
    then have "AppendRune r = [char_of (224 + RuneError div 4096),
        char_of (128 + RuneError div 64 mod 64), char_of (128 + RuneError mod 64)]"
      by (auto simp add: AppendRune_def)
    with b8 cont_byte_no_pct [of "RuneError div 64"] cont_byte_no_pct [of RuneError]
    show ?thesis by (metis empty_iff empty_set set_ConsD)
  next
    case d
    then have "AppendRune r = [char_of (224 + r div 4096), char_of (128 + r div 64 mod 64),
        char_of (128 + r mod 64)]"
      by (auto simp add: AppendRune_def)
    with b6 d cont_byte_no_pct [of "r div 64"] cont_byte_no_pct [of r]
    show ?thesis by (metis empty_iff empty_set set_ConsD)
  next
    case e
    then have "AppendRune r = [char_of (240 + r div 262144), char_of (128 + r div 4096 mod 64),
         char_of (128 + r div 64 mod 64), char_of (128 + r mod 64)]"
      by (auto simp add: AppendRune_def)
    moreover from e have "r \<le> 1114111" by simp
    ultimately show ?thesis
      using b7 cont_byte_no_pct [of "r div 4096"] cont_byte_no_pct [of "r div 64"]
        cont_byte_no_pct [of r]
      by (metis empty_iff empty_set set_ConsD)
  qed
qed

lemma verbPart_out:
  "verbPart s g = (out, rest) \<Longrightarrow> pct_ok out \<and> out \<noteq> [] \<and> hd out = CHR ''%''"
proof (cases "s = []")
  case True
  assume "verbPart s g = (out, rest)"
  with True have "out = noVerbString" by (simp add: verbPart_def)
  then show ?thesis by (simp add: noVerbString_def)
next
  case False
  assume v: "verbPart s g = (out, rest)"
  obtain verb w where d: "(if of_char (hd s) \<ge> RuneSelf then DecodeRuneInString s
               else (of_char (hd s), 1)) = (verb, w)"
    by (cases "(if of_char (hd s) \<ge> RuneSelf then DecodeRuneInString s
               else (of_char (hd s) :: nat, 1 :: nat))") auto
  show ?thesis
  proof (cases "verb = 37")
    case True
    with v d False have "out = ''%''" by (simp add: verbPart_def)
    then show ?thesis by simp
  next
    case nv: False
    then have np: "CHR ''%'' \<notin> set (AppendRune verb)" by (rule AppendRune_no_pct)
    from v d False nv obtain t where t: "t = badIndexString \<or> t = missingString"
      and out: "out = percentBangString @ AppendRune verb @ t"
      by (cases g) (auto simp: verbPart_def)
    from t have "CHR ''%'' \<notin> set t" by (auto simp: badIndexString_def missingString_def)
    with np have "pct_ok (AppendRune verb @ t)" by (intro pct_ok_no_pct) simp
    moreover have "AppendRune verb \<noteq> []" by (simp add: AppendRune_def)
    then have "hd (AppendRune verb @ t) = hd (AppendRune verb)" by simp
    ultimately show ?thesis using out by (simp add: percentBangString_def)
  qed
qed

lemma widthPart_out: "fst (widthPart s a g) = [] \<or> fst (widthPart s a g) = badWidthString"
  by (cases "parsenum s") (auto simp: widthPart_def)

lemma precPart_out: "fst (precPart s a g) = [] \<or> fst (precPart s a g) = badPrecString"
  by (auto simp: precPart_def split: prod.splits)

lemma bad_prefix_ok:
  assumes "pct_ok v" "v \<noteq> []" "hd v = CHR ''%''"
    and "p = [] \<or> p = badWidthString \<or> p = badPrecString"
  shows "pct_ok (p @ v) \<and> p @ v \<noteq> [] \<and> hd (p @ v) = CHR ''%''"
  using assms by (auto simp: badWidthString_def badPrecString_def)

lemma directive_out:
  "directive s = (E, r) \<Longrightarrow> pct_ok E \<and> E \<noteq> [] \<and> hd E = CHR ''%''"
proof -
  assume d: "directive s = (E, r)"
  obtain f1 a1 g1 where s1: "argNumber (dropWhile isFlag s) True = (f1, a1, g1)"
    by (cases "argNumber (dropWhile isFlag s) True")
  obtain oW f2 a2 g2 where s2: "widthPart f1 a1 g1 = (oW, f2, a2, g2)"
    by (cases "widthPart f1 a1 g1")
  obtain oP f3 a3 g3 where s3: "precPart f2 a2 g2 = (oP, f3, a3, g3)"
    by (cases "precPart f2 a2 g2")
  obtain f4 a4 g4 where s4: "(if \<not> a3 then argNumber f3 g3 else (f3, a3, g3)) = (f4, a4, g4)"
    by (cases "(if \<not> a3 then argNumber f3 g3 else (f3, a3, g3))")
  obtain oV rest where s5: "verbPart f4 g4 = (oV, rest)"
    by (cases "verbPart f4 g4")
  from d s1 s2 s3 s4 s5 have E: "E = oW @ oP @ oV" by (simp add: directive_def)
  have w: "oW = [] \<or> oW = badWidthString" using widthPart_out [of f1 a1 g1] s2 by simp
  have p: "oP = [] \<or> oP = badPrecString" using precPart_out [of f2 a2 g2] s3 by simp
  from verbPart_out [OF s5] have v: "pct_ok oV" "oV \<noteq> []" "hd oV = CHR ''%''" by simp_all
  from bad_prefix_ok [OF v, of oP] p
  have pv: "pct_ok (oP @ oV)" "oP @ oV \<noteq> []" "hd (oP @ oV) = CHR ''%''" by blast+
  from bad_prefix_ok [OF pv, of oW] w show ?thesis unfolding E by blast
qed

lemma directive_Nil: "directive [] = (noVerbString, [])"
  by (simp add: directive_def argNumber_def widthPart_def precPart_def parsenum_def verbPart_def)

lemma char_of_bang: "char_of (33::nat) = CHR ''!''"
  by code_simp

lemma directive_bang: "directive (CHR ''!'' # t) = (''%!!(MISSING)'', t)"
  by (simp add: char_of_bang directive_def argNumber_def widthPart_def precPart_def parsenum_def verbPart_def
      isFlag_def isDigit_def RuneSelf_def AppendRune_def percentBangString_def missingString_def)

lemma directive_split:
  "directive s = (E, r) \<Longrightarrow> \<exists>D. s = D @ r \<and> (D = [] \<longrightarrow> s = [])"
proof -
  assume "directive s = (E, r)"
  from directive_drop [OF this] obtain k where k: "r = drop k s" "s \<noteq> [] \<longrightarrow> 1 \<le> k" by blast
  have "s = take k s @ r" using k(1) by simp
  moreover have "take k s = [] \<longrightarrow> s = []" using k(2) by (cases s) auto
  ultimately show ?thesis by blast
qed

lemma doPrintf_literal: "CHR ''%'' \<notin> set s \<Longrightarrow> doPrintf s = s"
  by (induction s) auto

lemma doPrintf_literal_prefix: "CHR ''%'' \<notin> set a \<Longrightarrow> doPrintf (a @ s) = a @ doPrintf s"
  by (induction a) auto

lemma doPrintf_not_shrunk_by_literal:
  "CHR ''%'' \<notin> set a \<Longrightarrow> a \<noteq> [] \<Longrightarrow> a @ doPrintf r \<noteq> r"
proof (induction "length r" arbitrary: r rule: less_induct)
  case less
  show ?case
  proof
    assume eq: "a @ doPrintf r = r"
    define r2 where "r2 = doPrintf r"
    from eq have r: "r = a @ r2" by (simp add: r2_def)
    have "r2 = doPrintf (a @ r2)" using r r2_def by simp
    also have "\<dots> = a @ doPrintf r2" using less.prems(1) by (rule doPrintf_literal_prefix)
    finally have "a @ doPrintf r2 = r2" by simp
    moreover have "length r2 < length r" using r less.prems(2) by simp
    ultimately show False using less.hyps [of r2] less.prems by blast
  qed
qed

lemma doPrintf_no_growth_fixpoint: "doPrintf r = w @ r \<Longrightarrow> w = []"
proof (induction "length r" arbitrary: r w rule: less_induct)
  case less
  show ?case
  proof (cases r)
    case Nil
    with less.prems show ?thesis by simp
  next
    case (Cons c s)
    show ?thesis
    proof (cases "c = CHR ''%''")
      case False
      show ?thesis
      proof (cases w)
        case Nil
        then show ?thesis .
      next
        case (Cons c' w')
        with less.prems \<open>r = c # s\<close> False have "doPrintf s = (w' @ [c]) @ s" by simp
        moreover have "length s < length r" using \<open>r = c # s\<close> by simp
        ultimately have "w' @ [c] = []" by (rule less.hyps [rotated])
        then show ?thesis by simp
      qed
    next
      case True
      obtain E r' where d: "directive s = (E, r')" by (cases "directive s")
      from directive_split [OF d] obtain D where D: "s = D @ r'" "D = [] \<longrightarrow> s = []" by blast
      have lt: "length r' < length r" using D(1) \<open>r = c # s\<close> by simp
      from directive_out [OF d] have E: "pct_ok E" "E \<noteq> []" "hd E = CHR ''%''" by simp_all
      from less.prems Cons True d D(1)
      have eq: "E @ doPrintf r' = w @ (CHR ''%'' # D @ r')" by simp
      show ?thesis
      proof (rule ccontr)
        assume wne: "w \<noteq> []"
        from eq [unfolded append_eq_append_conv2] obtain us where
          "(E = w @ us \<and> us @ doPrintf r' = CHR ''%'' # D @ r') \<or>
           (E @ us = w \<and> doPrintf r' = us @ CHR ''%'' # D @ r')"
          by blast
        then show False
        proof
          assume "E @ us = w \<and> doPrintf r' = us @ CHR ''%'' # D @ r'"
          then have "doPrintf r' = (us @ CHR ''%'' # D) @ r'" by simp
          from less.hyps [OF lt this] show False by simp
        next
          assume a: "E = w @ us \<and> us @ doPrintf r' = CHR ''%'' # D @ r'"
          show False
          proof (cases us)
            case Nil
            with a have "doPrintf r' = (CHR ''%'' # D) @ r'" by simp
            from less.hyps [OF lt this] show False by simp
          next
            case (Cons u T)
            with a have u: "u = CHR ''%''" and T: "T @ doPrintf r' = D @ r'"
              and Ew: "E = w @ CHR ''%'' # T" by simp_all
            from E(1) Ew have bang: "T = [] \<or> hd T = CHR ''!''" by (auto dest: pct_ok_split)
            have Dne: "D \<noteq> []"
            proof
              assume "D = []"
              with D have "s = []" by simp
              with d have "E = noVerbString" by (simp add: directive_Nil)
              with Ew wne show False
                by (cases w) (auto simp: noVerbString_def Cons_eq_append_conv)
            qed
            have Tne: "T \<noteq> []"
            proof
              assume "T = []"
              with T have "doPrintf r' = D @ r'" by simp
              from less.hyps [OF lt this] Dne show False by simp
            qed
            with bang have "hd T = CHR ''!''" by simp
            with T Tne Dne have "hd D = CHR ''!''"
              by (cases T; cases D) auto
            with Dne D(1) obtain t where "s = CHR ''!'' # t" by (cases D) auto
            with d have "E = ''%!!(MISSING)''" by (simp add: directive_bang)
            with Ew wne show False
              by (cases w) (auto simp: Cons_eq_append_conv)
          qed
        qed
      qed
    qed
  qed
qed

lemma doPrintf_changes_percent: "doPrintf x = x \<Longrightarrow> CHR ''%'' \<notin> set x"
proof (induction x)
  case Nil
  then show ?case by simp
next
  case (Cons c s)
  show ?case
  proof (cases "c = CHR ''%''")
    case False
    with Cons show ?thesis by simp
  next
    case True
    obtain E r where d: "directive s = (E, r)" by (cases "directive s")
    from directive_split [OF d] obtain D where D: "s = D @ r" "D = [] \<longrightarrow> s = []" by blast
    from directive_out [OF d] have E: "pct_ok E" "E \<noteq> []" "hd E = CHR ''%''" by simp_all
    from Cons.prems True d D(1) have eq: "E @ doPrintf r = (CHR ''%'' # D) @ r" by simp
    from eq [unfolded append_eq_append_conv2] obtain us where
      "(E = (CHR ''%'' # D) @ us \<and> us @ doPrintf r = r) \<or>
       (E @ us = CHR ''%'' # D \<and> doPrintf r = us @ r)"
      by blast
    then have "\<exists>us. E = CHR ''%'' # D @ us \<and> us @ doPrintf r = r"
    proof
      assume "E = (CHR ''%'' # D) @ us \<and> us @ doPrintf r = r"
      then show ?thesis by auto
    next
      assume a: "E @ us = CHR ''%'' # D \<and> doPrintf r = us @ r"
      then have "us = []" using doPrintf_no_growth_fixpoint by blast
      with a show ?thesis by auto
    qed
    then obtain us where Eq: "E = CHR ''%'' # D @ us" and us: "us @ doPrintf r = r" by blast
    have False
    proof (cases "D = []")
      case True
      with D have "s = []" by simp
      with d have "E = noVerbString" "r = []" by (simp_all add: directive_Nil)
      with Eq True us show False by (simp add: noVerbString_def)
    next
      case False
      from E(1) Eq have "D @ us = [] \<or> hd (D @ us) = CHR ''!''"
        using pct_ok_split [of "[]" "D @ us"] by simp
      with False have "hd D = CHR ''!''" by simp
      with False D(1) obtain t where s: "s = CHR ''!'' # t" by (cases D) auto
      with d have E2: "E = ''%!!(MISSING)''" and r: "r = t" by (simp_all add: directive_bang)
      from s r D(1) have "D = [CHR ''!'']" by simp
      with Eq E2 have "us = ''!(MISSING)''" by simp
      with us doPrintf_not_shrunk_by_literal [of us r] show False by simp
    qed
    then show ?thesis ..
  qed
qed

lemma doPrintf_identity_iff: "doPrintf x = x \<longleftrightarrow> CHR ''%'' \<notin> set x"
  using doPrintf_changes_percent doPrintf_literal by blast

section \<open>The handler, step by step\<close>

lemma randomColor_eq: "randomColor r = Some (colors ! (r mod 6))"
proof -
  have "int r mod 6 = int (r mod 6)" by (simp add: zmod_int)
  moreover have "r mod 6 < 6" by simp
  ultimately show ?thesis
    by (simp add: randomColor_def index_slice_def colors_def del: of_nat_mod)
qed

lemma nth_colors_mem: "colors ! (r mod 6) \<in> set colors"
proof -
  have "r mod 6 < length colors" by (simp add: colors_def)
  then show ?thesis by (rule nth_mem)
qed

lemma fail500_fresh:
  "status (fail500 l e (fresh src)) = Some 500"
  "body (fail500 l e (fresh src)) = doPrintf e"
  "slept (fail500 l e (fresh src)) = []"
  "rand (fail500 l e (fresh src)) = src"
  by (simp_all add: fail500_def Fprintf_format_def Write_def WriteHeader_def log_Print_def
      fresh_def Let_def)

lemma printColor_named:
  "colorToPrint \<noteq> [] \<Longrightarrow> status w = None \<Longrightarrow>
   \<exists>w'. printColor colorToPrint healthy w = Some w' \<and>
     status w' = Some (if healthy then 200 else 500) \<and>
     body w' = body w @ quoted colorToPrint \<and> slept w' = slept w \<and> rand w' = rand w"
  by (simp add: printColor_def Fprintf_quoted_def Write_def WriteHeader_def log_Print_def
      Header_Set_def Let_def)

lemma delayDecision_Inl:
  "delayDecision Atoi env b c cp w = Inl x \<Longrightarrow>
   envLatency env \<noteq> [] \<and>
   (\<exists>e. Atoi (envLatency env) = Inl e \<and> x = fail500 (LogBodyError b e) e w)"
  by (auto simp: delayDecision_def rand_next_def split: if_splits sum.splits option.splits)

lemma delayDecision_Inr:
  "delayDecision Atoi env b c cp w = Inr w2 \<Longrightarrow>
   status w2 = status w \<and> body w2 = body w \<and> header w2 = header w"
  by (auto simp: delayDecision_def rand_next_def time_Sleep_def log_Print_def
      split: if_splits sum.splits option.splits)

lemma failureDecision_Inl:
  "failureDecision Atoi env b cp w = Inl x \<Longrightarrow>
   envErrorRate env \<noteq> [] \<and>
   (\<exists>e. Atoi (envErrorRate env) = Inl e \<and> x = fail500 (LogBodyError b e) e w)"
  by (auto simp: failureDecision_def rand_next_def split: if_splits sum.splits option.splits)

lemma failureDecision_Inr:
  "failureDecision Atoi env b cp w = Inr (ok, w3) \<Longrightarrow>
   status w3 = status w \<and> body w3 = body w \<and> header w3 = header w \<and> slept w3 = slept w"
  by (auto simp: failureDecision_def rand_next_def split: if_splits sum.splits option.splits)

lemma fail500_open:
  "status w = None \<Longrightarrow>
   status (fail500 l e w) = Some 500 \<and> body (fail500 l e w) = body w @ doPrintf e \<and>
   slept (fail500 l e w) = slept w \<and> rand (fail500 l e w) = rand w"
  by (simp add: fail500_def Fprintf_format_def Write_def WriteHeader_def log_Print_def Let_def)

lemma colors_nonempty_names: "c \<in> set colors \<Longrightarrow> c \<noteq> []"
  by (auto simp: colors_def)

lemma selectParams_snoc:
  "selectParams c (xs @ [x]) = (if Color x = c then x else selectParams c xs)"
  by (simp add: selectParams_def)

lemma selectParams_last:
  "selectParams c request =
     (case filter (\<lambda>cp. Color cp = c) request of [] \<Rightarrow> zeroParams | x # xs \<Rightarrow> last (x # xs))"
proof (induction request rule: rev_induct)
  case Nil
  then show ?case by (simp add: selectParams_def)
next
  case (snoc x xs)
  show ?case
  proof (cases "Color x = c")
    case True
    then have "filter (\<lambda>cp. Color cp = c) (xs @ [x]) = filter (\<lambda>cp. Color cp = c) xs @ [x]"
      by simp
    then have "(case filter (\<lambda>cp. Color cp = c) (xs @ [x]) of [] \<Rightarrow> zeroParams
                | y # ys \<Rightarrow> last (y # ys)) = x"
      by (cases "filter (\<lambda>cp. Color cp = c) xs") simp_all
    with True show ?thesis by (simp add: selectParams_snoc)
  next
    case False
    with snoc show ?thesis by (simp add: selectParams_snoc)
  qed
qed

lemma selectParams_no_match:
  "\<forall>cp \<in> set request. Color cp \<noteq> c \<Longrightarrow> selectParams c request = zeroParams"
proof -
  assume "\<forall>cp \<in> set request. Color cp \<noteq> c"
  then have "filter (\<lambda>cp. Color cp = c) request = []" by (simp add: filter_empty_conv)
  then show ?thesis by (simp add: selectParams_last)
qed

lemma selectParams_Nil: "selectParams c [] = zeroParams"
  by (simp add: selectParams_def)

lemma rand_next_drawn: "rand_next w = (rand w 0, drawn w)"
  by (simp add: rand_next_def drawn_def)

lemma drawn_fields:
  "status (drawn w) = status w" "body (drawn w) = body w" "slept (drawn w) = slept w"
  "header (drawn w) = header w" "logged (drawn w) = logged w"
  "rand (drawn w) = (\<lambda>n. rand w (Suc n))"
  by (simp_all add: drawn_def)

lemma serveColor_eq:
  "serveColor Atoi env b request w =
     (case delayDecision Atoi env b (resolvedColor env (colors ! (rand w 0 mod 6)))
             (selectParams (resolvedColor env (colors ! (rand w 0 mod 6))) request) (drawn w) of
        Inl x \<Rightarrow> Some x
      | Inr w2 \<Rightarrow>
          (case failureDecision Atoi env b
                  (selectParams (resolvedColor env (colors ! (rand w 0 mod 6))) request) w2 of
             Inl x \<Rightarrow> Some x
           | Inr (ok, w3) \<Rightarrow> printColor (resolvedColor env (colors ! (rand w 0 mod 6))) ok w3))"
  by (simp add: serveColor_def rand_next_drawn randomColor_eq Let_def)


lemma delayDecision_request:
  "envLatency env = [] \<Longrightarrow>
   delayDecision Atoi env b c cp w =
     (case DelayProbability cp of
        None \<Rightarrow> Inr w
      | Some p \<Rightarrow>
          if 0 < p then
            (if int (rand w 0) \<le> p then
               Inr (time_Sleep (seconds (DelayLength cp))
                 (log_Print (LogDelaying c (DelayLength cp)) (drawn w)))
             else Inr (drawn w))
          else Inr w)"
  by (simp add: delayDecision_def rand_next_drawn split: option.splits)

lemma failureDecision_rate:
  "envErrorRate env \<noteq> [] \<Longrightarrow> Atoi (envErrorRate env) = Inr rate \<Longrightarrow>
   failureDecision Atoi env b cp w = Inr (rate \<le> int (rand w 0), drawn w)"
  by (simp add: failureDecision_def rand_next_drawn)

lemma failureDecision_request:
  "envErrorRate env = [] \<Longrightarrow>
   failureDecision Atoi env b cp w =
     (case Return500Probability cp of
        None \<Rightarrow> Inr (True, w)
      | Some p \<Rightarrow> if 0 < p then Inr (\<not> int (rand w 0) \<le> p, drawn w) else Inr (True, w))"
  by (simp add: failureDecision_def rand_next_drawn split: option.splits)

lemma delayDecision_ok:
  "envLatency env = [] \<or> \<not> isl (Atoi (envLatency env)) \<Longrightarrow>
   \<exists>w2. delayDecision Atoi env b c cp w = Inr w2 \<and> status w2 = status w \<and> body w2 = body w"
proof (cases "delayDecision Atoi env b c cp w")
  case (Inl x)
  assume "envLatency env = [] \<or> \<not> isl (Atoi (envLatency env))"
  with delayDecision_Inl [OF Inl] show ?thesis by auto
next
  case (Inr w2)
  with delayDecision_Inr [OF Inr] show ?thesis by simp
qed

lemma failureDecision_ok:
  "envErrorRate env = [] \<or> \<not> isl (Atoi (envErrorRate env)) \<Longrightarrow>
   \<exists>ok w3. failureDecision Atoi env b cp w = Inr (ok, w3) \<and> status w3 = status w \<and>
     body w3 = body w \<and> slept w3 = slept w"
proof (cases "failureDecision Atoi env b cp w")
  case (Inl x)
  assume "envErrorRate env = [] \<or> \<not> isl (Atoi (envErrorRate env))"
  with failureDecision_Inl [OF Inl] show ?thesis by auto
next
  case (Inr p)
  obtain ok w3 where p: "p = (ok, w3)" by (cases p)
  with Inr failureDecision_Inr [of Atoi env b cp w ok w3] show ?thesis by simp
qed

lemma printColor_named_log:
  "colorToPrint \<noteq> [] \<Longrightarrow> status w = None \<Longrightarrow>
   \<exists>w'. printColor colorToPrint healthy w = Some w' \<and>
     status w' = Some (if healthy then 200 else 500) \<and>
     body w' = body w @ quoted colorToPrint \<and> slept w' = slept w \<and> rand w' = rand w \<and>
     last (logged w') = (if healthy then LogSuccessful colorToPrint else Log500 colorToPrint)"
  by (simp add: printColor_def Fprintf_quoted_def Write_def WriteHeader_def log_Print_def
      Header_Set_def Let_def)

lemma resolvedColor_nonempty: "resolvedColor env (colors ! (r mod 6)) \<noteq> []"
  using colors_nonempty_names [OF nth_colors_mem [of r]] by (simp add: resolvedColor_def)


lemma selectParams_map_field:
  assumes "\<And>cp. Color (f cp) = Color cp" and "\<And>cp. P (f cp) = P cp"
  shows "P (selectParams c (map f request)) = P (selectParams c request)"
proof (induction request rule: rev_induct)
  case Nil
  then show ?case by simp
next
  case (snoc x xs)
  then show ?case using assms by (simp add: selectParams_snoc)
qed

lemma delayDecision_cong:
  "DelayProbability cp = DelayProbability cp' \<Longrightarrow> DelayLength cp = DelayLength cp' \<Longrightarrow>
   delayDecision Atoi env b c cp w = delayDecision Atoi env b c cp' w"
  by (auto simp: delayDecision_def split: option.splits prod.splits)



lemma failureDecision_forced:
  "envErrorRate env \<noteq> [] \<Longrightarrow>
   failureDecision Atoi env b cp w = failureDecision Atoi env b cp' w"
  by (simp add: failureDecision_def)

lemma serveColor_ignores_return500:
  assumes "envErrorRate env \<noteq> []"
  shows "serveColor Atoi env b (map (\<lambda>cp. cp\<lparr>Return500Probability := g cp\<rparr>) request) w =
         serveColor Atoi env b request w"
proof -
  let ?f = "\<lambda>cp. cp\<lparr>Return500Probability := g cp\<rparr>"
  let ?c = "resolvedColor env (colors ! (rand w 0 mod 6))"
  have p: "DelayProbability (selectParams ?c (map ?f request)) =
           DelayProbability (selectParams ?c request)"
    by (rule selectParams_map_field) simp_all
  have l: "DelayLength (selectParams ?c (map ?f request)) = DelayLength (selectParams ?c request)"
    by (rule selectParams_map_field) simp_all
  have d: "delayDecision Atoi env b ?c (selectParams ?c (map ?f request)) (drawn w) =
           delayDecision Atoi env b ?c (selectParams ?c request) (drawn w)"
    using p l by (rule delayDecision_cong)
  have f: "\<And>w2. failureDecision Atoi env b (selectParams ?c (map ?f request)) w2 =
           failureDecision Atoi env b (selectParams ?c request) w2"
    using assms by (rule failureDecision_forced)
  show ?thesis by (simp only: serveColor_eq d f)
qed


lemma delayDecision_rand:
  "delayDecision Atoi env b c cp w = Inr w2 \<Longrightarrow>
   rand w2 = rand w \<or> (envLatency env = [] \<and> rand w2 = (\<lambda>n. rand w (Suc n)))"
  by (auto simp: delayDecision_def rand_next_def time_Sleep_def log_Print_def
      split: if_splits sum.splits option.splits)

lemma printColor_status:
  "colorToPrint \<noteq> [] \<Longrightarrow> status w = None \<Longrightarrow>
   \<exists>w'. printColor colorToPrint healthy w = Some w' \<and>
     status w' = Some (if healthy then 200 else 500) \<and> rand w' = rand w \<and> slept w' = slept w"
  using printColor_named [of colorToPrint w healthy] by auto

lemma int64_id: "- (2 ^ 63) \<le> k \<Longrightarrow> k < 2 ^ 63 \<Longrightarrow> int64 k = k"
proof -
  assume "- (2 ^ 63) \<le> k" "k < 2 ^ 63"
  then have "0 \<le> k + 2 ^ 63" "k + 2 ^ 63 < 2 ^ 64" by simp_all
  then have "(k + 2 ^ 63) mod 2 ^ 64 = k + 2 ^ 63" by (rule mod_pos_pos_trivial)
  then show ?thesis by (simp add: int64_def)
qed

lemma seconds_exact:
  "- 9223372036 \<le> n \<Longrightarrow> n \<le> 9223372036 \<Longrightarrow> seconds n = n * 1000000000"
  unfolding seconds_def Second_def by (rule int64_id) simp_all



lemma delayDecision_Inr_guard:
  "delayDecision Atoi env b c cp w = Inr w2 \<Longrightarrow>
   envLatency env = [] \<or> \<not> isl (Atoi (envLatency env))"
  by (auto simp: delayDecision_def split: if_splits sum.splits)

lemma failureDecision_Inr_guard:
  "failureDecision Atoi env b cp w = Inr p \<Longrightarrow>
   envErrorRate env = [] \<or> \<not> isl (Atoi (envErrorRate env))"
  by (auto simp: failureDecision_def split: if_splits sum.splits)

section \<open>The claims\<close>

text \<open>
  C1, as the code has it. With a non-empty \<^verbatim>\<open>COLOR\<close>, the resolved colour is the override
  whatever colour was drawn, and every request that no error exit ends (its body is read
  and decoded, \<^verbatim>\<open>LATENCY\<close> and \<^verbatim>\<open>ERROR_RATE\<close> are unset or integers) is answered with the
  override between double quotes, whatever its parameters and the random draws, with
  status 200 or 500.
\<close>

theorem color_override_served:
  assumes "color env \<noteq> []"
    and "decodeRequest Unmarshal requestBody = Inr request"
    and "envLatency env = [] \<or> \<not> isl (Atoi (envLatency env))"
    and "envErrorRate env = [] \<or> \<not> isl (Atoi (envErrorRate env))"
  shows "resolvedColor env c = color env \<and>
    (\<exists>w. getColor Unmarshal Atoi env (Inr requestBody) (fresh src) = Some w \<and>
       body w = quoted (color env) \<and> (status w = Some 200 \<or> status w = Some 500) \<and>
       (last (logged w) = LogSuccessful (color env) \<or> last (logged w) = Log500 (color env)))"
proof
  show "resolvedColor env c = color env" using assms(1) by (simp add: resolvedColor_def)
next
  define w1 where "w1 = drawn (fresh src)"
  define cp where "cp = selectParams (color env) request"
  have rc: "resolvedColor env (colors ! (rand (fresh src) 0 mod 6)) = color env"
    using assms(1) by (simp add: resolvedColor_def)
  have w1: "status w1 = None" "body w1 = []" by (simp_all add: w1_def drawn_fields fresh_def)
  from delayDecision_ok [where env = env and Atoi = Atoi and b = requestBody and c = "color env"
      and cp = cp and w = w1] assms(3) w1 obtain w2 where
    w2: "delayDecision Atoi env requestBody (color env) cp w1 = Inr w2"
      "status w2 = None" "body w2 = []" by auto
  from failureDecision_ok [where env = env and Atoi = Atoi and b = requestBody and cp = cp
      and w = w2] assms(4) w2 obtain ok w3 where
    w3: "failureDecision Atoi env requestBody cp w2 = Inr (ok, w3)"
      "status w3 = None" "body w3 = []" by auto
  from printColor_named_log [OF assms(1) w3(2), of ok] w3(3) obtain w where
    w: "printColor (color env) ok w3 = Some w" "status w = Some (if ok then 200 else 500)"
      "body w = quoted (color env)"
      "last (logged w) = (if ok then LogSuccessful (color env) else Log500 (color env))"
    by auto
  have "getColor Unmarshal Atoi env (Inr requestBody) (fresh src) = Some w"
    using assms(2) w2(1) w3(1) w(1)
    by (simp add: getColor_def serveColor_eq rc w1_def cp_def)
  with w(2-4) show "\<exists>w. getColor Unmarshal Atoi env (Inr requestBody) (fresh src) = Some w \<and>
       body w = quoted (color env) \<and> (status w = Some 200 \<or> status w = Some 500) \<and>
       (last (logged w) = LogSuccessful (color env) \<or> last (logged w) = Log500 (color env))"
    by (cases ok) auto
qed

theorem color_override_served_witness:
  "color \<lparr>color = ''red'', envErrorRate = [], envLatency = []\<rparr> \<noteq> [] \<and>
   decodeRequest
     (\<lambda>b. Inr [\<lparr>Color = ''blue'', DelayProbability = None, DelayLength = 0,
                 Return500Probability = Some 100\<rparr>])
     (''[{'' @ quoted ''color'' @ '':'' @ quoted ''blue'' @ '','' @ quoted ''return500'' @
        '':100}]'') =
     Inr [\<lparr>Color = ''blue'', DelayProbability = None, DelayLength = 0,
            Return500Probability = Some 100\<rparr>] \<and>
   envLatency \<lparr>color = ''red'', envErrorRate = [], envLatency = []\<rparr> = [] \<and>
   envErrorRate \<lparr>color = ''red'', envErrorRate = [], envLatency = []\<rparr> = [] \<and>
   resolvedColor \<lparr>color = ''red'', envErrorRate = [], envLatency = []\<rparr> ''blue'' = ''red'' \<and>
   (\<exists>w. getColor
      (\<lambda>b. Inr [\<lparr>Color = ''blue'', DelayProbability = None, DelayLength = 0,
                 Return500Probability = Some 100\<rparr>])
      (\<lambda>s. Inl [])
      \<lparr>color = ''red'', envErrorRate = [], envLatency = []\<rparr>
      (Inr (''[{'' @ quoted ''color'' @ '':'' @ quoted ''blue'' @ '','' @ quoted ''return500'' @
        '':100}]'')) (fresh (\<lambda>n. 4)) = Some w \<and>
      body w = quoted ''red'' \<and> (status w = Some 200 \<or> status w = Some 500))"
proof -
  let ?env = "\<lparr>color = ''red'', envErrorRate = [], envLatency = []\<rparr>"
  let ?req = "[\<lparr>Color = ''blue'', DelayProbability = None, DelayLength = 0,
                 Return500Probability = Some 100\<rparr>]"
  let ?U = "\<lambda>b :: string. (Inr ?req :: string + colorParameters list)"
  let ?A = "\<lambda>s :: string. (Inl [] :: string + int)"
  let ?b = "''[{'' @ quoted ''color'' @ '':'' @ quoted ''blue'' @ '','' @ quoted ''return500'' @
        '':100}]''"
  have h1: "color ?env \<noteq> []" by simp
  have h2: "decodeRequest ?U ?b = Inr ?req"
    by (simp add: decodeRequest_def sentinel_def quoted_def)
  have h3: "envLatency ?env = [] \<or> \<not> isl (?A (envLatency ?env))" by simp
  have h4: "envErrorRate ?env = [] \<or> \<not> isl (?A (envErrorRate ?env))" by simp
  from color_override_served [OF h1 h2 h3 h4, of "''blue''" "\<lambda>n. 4"] h1 h2
  show ?thesis by auto
qed

text \<open>
  C1 as stated fails on a body that does not decode: with \<^verbatim>\<open>COLOR=red\<close> and the body \<^verbatim>\<open>{\<close>,
  for which \<^verbatim>\<open>json.Unmarshal\<close> reports \<^verbatim>\<open>unexpected end of JSON input\<close>, the response is
  500 and its body is that text, not the quoted colour.
\<close>

theorem color_override_counterexample:
  "map_option body
     (getColor (\<lambda>b. Inl ''unexpected end of JSON input'') (\<lambda>s. Inl [])
        \<lparr>color = ''red'', envErrorRate = [], envLatency = []\<rparr> (Inr ''{'') (fresh (\<lambda>n. 0))) =
     Some ''unexpected end of JSON input'' \<and>
   map_option status
     (getColor (\<lambda>b. Inl ''unexpected end of JSON input'') (\<lambda>s. Inl [])
        \<lparr>color = ''red'', envErrorRate = [], envLatency = []\<rparr> (Inr ''{'') (fresh (\<lambda>n. 0))) =
     Some (Some 500) \<and>
   ''unexpected end of JSON input'' \<noteq> quoted ''red''"
proof -
  have "doPrintf ''unexpected end of JSON input'' = ''unexpected end of JSON input''"
    by (rule doPrintf_literal) simp
  then show ?thesis
    by (simp add: getColor_def decodeRequest_def sentinel_def fail500_fresh quoted_def)
qed

text \<open>
  C2, as the code has it. Let \<^verbatim>\<open>ERROR_RATE\<close> be set to an integer \<open>rate\<close>. A request that
  reaches the failure decision (its body is read and decoded, and \<^verbatim>\<open>LATENCY\<close> is unset or an
  integer) is answered 200 exactly when the next value of the random source, taken after
  the delay step and used by nothing else, is at least \<open>rate\<close>, and 500 otherwise; with
  rate 0 it is answered 200. The \<^verbatim>\<open>return500\<close> parameters of the request change nothing.
  With rate 100 every request at all is answered 500, whatever the draws below 100.
\<close>

theorem error_rate_override:
  assumes "envErrorRate env \<noteq> []" and "Atoi (envErrorRate env) = Inr rate"
  shows
    "(decodeRequest Unmarshal requestBody = Inr request \<and>
      (envLatency env = [] \<or> \<not> isl (Atoi (envLatency env))) \<longrightarrow>
      (\<exists>c w2 w.
         c = resolvedColor env (colors ! (src 0 mod 6)) \<and>
         delayDecision Atoi env requestBody c (selectParams c request) (drawn (fresh src)) =
           Inr w2 \<and>
         getColor Unmarshal Atoi env (Inr requestBody) (fresh src) = Some w \<and>
         (status w = Some 200 \<longleftrightarrow> rate \<le> int (rand w2 0)) \<and>
         (status w = Some 500 \<longleftrightarrow> int (rand w2 0) < rate) \<and>
         rand w = (\<lambda>n. rand w2 (Suc n)) \<and>
         (rate = 0 \<longrightarrow> status w = Some 200))) \<and>
     (\<forall>g. serveColor Atoi env requestBody
             (map (\<lambda>cp. cp\<lparr>Return500Probability := g cp\<rparr>) request) w0 =
           serveColor Atoi env requestBody request w0) \<and>
     (rate = 100 \<and> (\<forall>n. src (Suc n) < 100) \<longrightarrow>
        (\<exists>w. getColor Unmarshal Atoi env readAll (fresh src) = Some w \<and> status w = Some 500))"
proof (intro conjI impI allI)
  assume a: "decodeRequest Unmarshal requestBody = Inr request \<and>
      (envLatency env = [] \<or> \<not> isl (Atoi (envLatency env)))"
  define c where "c = resolvedColor env (colors ! (src 0 mod 6))"
  define cp where "cp = selectParams c request"
  define w1 where "w1 = drawn (fresh src)"
  have c0: "c = resolvedColor env (colors ! (rand (fresh src) 0 mod 6))"
    by (simp add: c_def fresh_def)
  have cne: "c \<noteq> []" unfolding c_def by (rule resolvedColor_nonempty)
  have w1: "status w1 = None" by (simp add: w1_def drawn_fields fresh_def)
  from delayDecision_ok [where env = env and Atoi = Atoi and b = requestBody and c = c
      and cp = cp and w = w1] a w1 obtain w2 where
    w2: "delayDecision Atoi env requestBody c cp w1 = Inr w2" "status w2 = None" by auto
  define ok where "ok = (rate \<le> int (rand w2 0))"
  have fd: "failureDecision Atoi env requestBody cp w2 = Inr (ok, drawn w2)"
    unfolding ok_def using assms by (rule failureDecision_rate)
  have "status (drawn w2) = None" using w2(2) by (simp add: drawn_fields)
  from printColor_status [OF cne this, of ok] obtain w where
    w: "printColor c ok (drawn w2) = Some w" "status w = Some (if ok then 200 else 500)"
      "rand w = rand (drawn w2)" by auto
  have g: "getColor Unmarshal Atoi env (Inr requestBody) (fresh src) = Some w"
    using a w2(1) fd w(1) by (simp add: getColor_def serveColor_eq c0 [symmetric] cp_def w1_def)
  have st: "(status w = Some 200 \<longleftrightarrow> rate \<le> int (rand w2 0)) \<and>
        (status w = Some 500 \<longleftrightarrow> int (rand w2 0) < rate) \<and>
        rand w = (\<lambda>n. rand w2 (Suc n)) \<and> (rate = 0 \<longrightarrow> status w = Some 200)"
    using w(2,3) by (auto simp: ok_def drawn_fields)
  have "c = resolvedColor env (colors ! (src 0 mod 6)) \<and>
         delayDecision Atoi env requestBody c (selectParams c request) (drawn (fresh src)) =
           Inr w2 \<and>
         getColor Unmarshal Atoi env (Inr requestBody) (fresh src) = Some w \<and>
         (status w = Some 200 \<longleftrightarrow> rate \<le> int (rand w2 0)) \<and>
         (status w = Some 500 \<longleftrightarrow> int (rand w2 0) < rate) \<and>
         rand w = (\<lambda>n. rand w2 (Suc n)) \<and>
         (rate = 0 \<longrightarrow> status w = Some 200)"
    using g w2(1) [unfolded cp_def w1_def] st c_def by (intro conjI) simp_all
  then show "\<exists>c w2 w.
         c = resolvedColor env (colors ! (src 0 mod 6)) \<and>
         delayDecision Atoi env requestBody c (selectParams c request) (drawn (fresh src)) =
           Inr w2 \<and>
         getColor Unmarshal Atoi env (Inr requestBody) (fresh src) = Some w \<and>
         (status w = Some 200 \<longleftrightarrow> rate \<le> int (rand w2 0)) \<and>
         (status w = Some 500 \<longleftrightarrow> int (rand w2 0) < rate) \<and>
         rand w = (\<lambda>n. rand w2 (Suc n)) \<and>
         (rate = 0 \<longrightarrow> status w = Some 200)"
    by - (rule exI [of _ c], rule exI [of _ w2], rule exI [of _ w])
next
  fix g
  show "serveColor Atoi env requestBody
             (map (\<lambda>cp. cp\<lparr>Return500Probability := g cp\<rparr>) request) w0 =
           serveColor Atoi env requestBody request w0"
    using assms(1) by (rule serveColor_ignores_return500)
next
  assume r: "rate = 100 \<and> (\<forall>n. src (Suc n) < 100)"
  show "\<exists>w. getColor Unmarshal Atoi env readAll (fresh src) = Some w \<and> status w = Some 500"
  proof (cases readAll)
    case (Inl e)
    then show ?thesis by (simp add: getColor_def fail500_fresh)
  next
    case (Inr requestBody)
    show ?thesis
    proof (cases "decodeRequest Unmarshal requestBody")
      case (Inl e)
      with Inr show ?thesis by (simp add: getColor_def fail500_fresh)
    next
      case dec: (Inr request)
      define c where "c = resolvedColor env (colors ! (rand (fresh src) 0 mod 6))"
      define cp where "cp = selectParams c request"
      define w1 where "w1 = drawn (fresh src)"
      have cne: "c \<noteq> []" unfolding c_def by (rule resolvedColor_nonempty)
      have w1: "status w1 = None" "rand w1 = (\<lambda>n. src (Suc n))"
        by (simp_all add: w1_def drawn_fields fresh_def)
      show ?thesis
      proof (cases "delayDecision Atoi env requestBody c cp w1")
        case (Inl x)
        from delayDecision_Inl [OF Inl] obtain e where
          "x = fail500 (LogBodyError requestBody e) e w1" by auto
        with fail500_open [OF w1(1), of "LogBodyError requestBody e" e]
        have "status x = Some 500" by simp
        moreover have "getColor Unmarshal Atoi env readAll (fresh src) = Some x"
          using Inr dec Inl by (simp add: getColor_def serveColor_eq c_def cp_def w1_def)
        ultimately show ?thesis by blast
      next
        case del: (Inr w2)
        from delayDecision_Inr [OF del] w1 have s2: "status w2 = None" by simp
        from delayDecision_rand [OF del] w1(2) r have lt: "rand w2 0 < 100" by auto
        have fd: "failureDecision Atoi env requestBody cp w2 =
            Inr (rate \<le> int (rand w2 0), drawn w2)"
          using assms by (rule failureDecision_rate)
        have nok: "\<not> rate \<le> int (rand w2 0)" using r lt by simp
        have "status (drawn w2) = None" using s2 by (simp add: drawn_fields)
        from printColor_status [OF cne this, of False] obtain w where
          w: "printColor c False (drawn w2) = Some w" "status w = Some 500" by auto
        have "getColor Unmarshal Atoi env readAll (fresh src) = Some w"
          using Inr dec del fd nok w(1)
          by (simp add: getColor_def serveColor_eq c_def cp_def w1_def)
        with w(2) show ?thesis by blast
      qed
    qed
  qed
qed

theorem error_rate_override_witness:
  "envErrorRate \<lparr>color = [], envErrorRate = ''100'', envLatency = []\<rparr> \<noteq> [] \<and>
   (\<lambda>s. if s = ''100'' then Inr 100 else if s = ''0'' then Inr 0 else Inl ''invalid syntax'')
     ''100'' = Inr (100 :: int) \<and>
   (\<lambda>s. if s = ''100'' then Inr 100 else if s = ''0'' then Inr 0 else Inl ''invalid syntax'')
     ''0'' = Inr (0 :: int) \<and>
   decodeRequest (\<lambda>b. Inl ''unexpected end of JSON input'') [] = Inr [] \<and>
   envLatency \<lparr>color = [], envErrorRate = ''100'', envLatency = []\<rparr> = [] \<and>
   (\<forall>n. (\<lambda>n. 7 :: nat) (Suc n) < 100) \<and>
   (\<exists>w. getColor (\<lambda>b. Inl ''unexpected end of JSON input'')
      (\<lambda>s. if s = ''100'' then Inr 100 else if s = ''0'' then Inr 0 else Inl ''invalid syntax'')
      \<lparr>color = [], envErrorRate = ''100'', envLatency = []\<rparr> (Inr []) (fresh (\<lambda>n. 7)) = Some w \<and>
      status w = Some 500) \<and>
   (\<exists>w. getColor (\<lambda>b. Inl ''unexpected end of JSON input'')
      (\<lambda>s. if s = ''100'' then Inr 100 else if s = ''0'' then Inr 0 else Inl ''invalid syntax'')
      \<lparr>color = [], envErrorRate = ''0'', envLatency = []\<rparr> (Inr []) (fresh (\<lambda>n. 7)) = Some w \<and>
      status w = Some 200)"
proof -
  let ?U = "\<lambda>b :: string. (Inl ''unexpected end of JSON input'' :: string + colorParameters list)"
  let ?A = "\<lambda>s. if s = ''100'' then Inr 100 else if s = ''0'' then Inr 0
    else (Inl ''invalid syntax'' :: string + int)"
  let ?e100 = "\<lparr>color = [], envErrorRate = ''100'', envLatency = []\<rparr>"
  let ?e0 = "\<lparr>color = [], envErrorRate = ''0'', envLatency = []\<rparr>"
  have d: "decodeRequest ?U [] = Inr []" by (simp add: decodeRequest_def)
  have a1: "envErrorRate ?e100 \<noteq> []" and a2: "?A (envErrorRate ?e100) = Inr 100" by simp_all
  have b1: "envErrorRate ?e0 \<noteq> []" and b2: "?A (envErrorRate ?e0) = Inr 0" by simp_all
  have lat: "envLatency ?e0 = [] \<or> \<not> isl (?A (envLatency ?e0))" by simp
  have small: "(100 :: int) = 100 \<and> (\<forall>n. (\<lambda>n. 7 :: nat) (Suc n) < 100)" by simp
  note t100 = error_rate_override [where env = ?e100 and Atoi = ?A and rate = 100
      and Unmarshal = ?U and requestBody = "[]" and request = "[]" and src = "\<lambda>n. 7"
      and ?w0.0 = "fresh (\<lambda>n. 7)" and readAll = "Inr []"]
  note t0 = error_rate_override [where env = ?e0 and Atoi = ?A and rate = 0
      and Unmarshal = ?U and requestBody = "[]" and request = "[]" and src = "\<lambda>n. 7"
      and ?w0.0 = "fresh (\<lambda>n. 7)" and readAll = "Inr []"]
  from t100 [OF a1 a2] small
  have r100: "\<exists>w. getColor ?U ?A ?e100 (Inr []) (fresh (\<lambda>n. 7)) = Some w \<and> status w = Some 500"
    by blast
  from t0 [OF b1 b2] d lat
  have r0: "\<exists>w. getColor ?U ?A ?e0 (Inr []) (fresh (\<lambda>n. 7)) = Some w \<and> status w = Some 200"
    by blast
  from r100 r0 d show ?thesis by simp
qed

text \<open>
  C2 as stated fails: with \<^verbatim>\<open>ERROR_RATE=0\<close>, a request whose body does not decode (here
  \<^verbatim>\<open>{\<close>) is answered 500, and so is every request when \<^verbatim>\<open>LATENCY\<close> is not an integer.
\<close>

theorem error_rate_counterexample:
  "map_option status
     (getColor (\<lambda>b. Inl ''unexpected end of JSON input'') (\<lambda>s. Inr 0)
        \<lparr>color = [], envErrorRate = ''0'', envLatency = []\<rparr> (Inr ''{'') (fresh (\<lambda>n. 0))) =
     Some (Some 500) \<and>
   map_option status
     (getColor (\<lambda>b. Inr [])
        (\<lambda>s. if s = ''0'' then Inr 0 else Inl ''invalid syntax'')
        \<lparr>color = [], envErrorRate = ''0'', envLatency = ''soon''\<rparr> (Inr []) (fresh (\<lambda>n. 0))) =
     Some (Some 500)"
  by (simp add: getColor_def decodeRequest_def sentinel_def fail500_fresh serveColor_eq
      delayDecision_def fail500_open drawn_fields fresh_def)




text \<open>
  C4. For every decoded request and every colour, the active parameter set is the last
  record, in order, whose colour label is that colour. When no record has the resolved
  colour, the active set is the zero value: with no \<^verbatim>\<open>LATENCY\<close> there is no delay and no
  draw, with no \<^verbatim>\<open>ERROR_RATE\<close> the verdict is success with no draw, and the handler does
  exactly what it does for an empty request.
\<close>

theorem active_parameter_set:
  "selectParams c request =
     (case filter (\<lambda>cp. Color cp = c) request of [] \<Rightarrow> zeroParams | x # xs \<Rightarrow> last (x # xs)) \<and>
   ((\<forall>cp \<in> set request. Color cp \<noteq> c) \<longrightarrow>
      selectParams c request = zeroParams \<and>
      (envLatency env = [] \<longrightarrow>
         delayDecision Atoi env requestBody c (selectParams c request) w = Inr w) \<and>
      (envErrorRate env = [] \<longrightarrow>
         failureDecision Atoi env requestBody (selectParams c request) w = Inr (True, w))) \<and>
   (\<forall>rc. randomColor (rand w 0) = Some rc \<longrightarrow>
      (\<forall>cp \<in> set request. Color cp \<noteq> resolvedColor env rc) \<longrightarrow>
      serveColor Atoi env requestBody request w = serveColor Atoi env requestBody [] w)"
proof (intro conjI impI allI)
  show "selectParams c request =
     (case filter (\<lambda>cp. Color cp = c) request of [] \<Rightarrow> zeroParams | x # xs \<Rightarrow> last (x # xs))"
    by (rule selectParams_last)
next
  assume "\<forall>cp \<in> set request. Color cp \<noteq> c"
  then show "selectParams c request = zeroParams" by (rule selectParams_no_match)
next
  assume "\<forall>cp \<in> set request. Color cp \<noteq> c" and "envLatency env = []"
  then show "delayDecision Atoi env requestBody c (selectParams c request) w = Inr w"
    by (simp add: selectParams_no_match delayDecision_def zeroParams_def)
next
  assume "\<forall>cp \<in> set request. Color cp \<noteq> c" and "envErrorRate env = []"
  then show "failureDecision Atoi env requestBody (selectParams c request) w = Inr (True, w)"
    by (simp add: selectParams_no_match failureDecision_def zeroParams_def)
next
  fix rc
  assume rc: "randomColor (rand w 0) = Some rc"
    and no: "\<forall>cp \<in> set request. Color cp \<noteq> resolvedColor env rc"
  from no have "selectParams (resolvedColor env rc) request = selectParams (resolvedColor env rc) []"
    by (simp add: selectParams_no_match selectParams_Nil)
  with rc show "serveColor Atoi env requestBody request w = serveColor Atoi env requestBody [] w"
    by (simp add: serveColor_def rand_next_def)
qed

theorem active_parameter_set_witness:
  "Color \<lparr>Color = ''red'', DelayProbability = Some 100, DelayLength = 2,
        Return500Probability = Some 100\<rparr> \<noteq> ''blue'' \<and>
   envLatency \<lparr>color = [], envErrorRate = [], envLatency = []\<rparr> = [] \<and>
   envErrorRate \<lparr>color = [], envErrorRate = [], envLatency = []\<rparr> = [] \<and>
   randomColor (rand (fresh (\<lambda>n. 4)) 0) = Some ''blue'' \<and>
   selectParams ''red'' [\<lparr>Color = ''red'', DelayProbability = Some 100, DelayLength = 2,
        Return500Probability = Some 100\<rparr>,
      \<lparr>Color = ''blue'', DelayProbability = None, DelayLength = 0,
        Return500Probability = None\<rparr>,
      \<lparr>Color = ''red'', DelayProbability = Some 5, DelayLength = 7,
        Return500Probability = None\<rparr>] =
     \<lparr>Color = ''red'', DelayProbability = Some 5, DelayLength = 7, Return500Probability = None\<rparr> \<and>
   selectParams ''blue'' [\<lparr>Color = ''red'', DelayProbability = Some 100, DelayLength = 2,
        Return500Probability = Some 100\<rparr>] = zeroParams \<and>
   serveColor (\<lambda>s. Inl []) \<lparr>color = [], envErrorRate = [], envLatency = []\<rparr> []
      [\<lparr>Color = ''red'', DelayProbability = Some 100, DelayLength = 2,
        Return500Probability = Some 100\<rparr>] (fresh (\<lambda>n. 4)) =
   serveColor (\<lambda>s. Inl []) \<lparr>color = [], envErrorRate = [], envLatency = []\<rparr> [] []
      (fresh (\<lambda>n. 4))"
proof -
  let ?req = "[\<lparr>Color = ''red'', DelayProbability = Some 100, DelayLength = 2,
        Return500Probability = Some 100\<rparr>]"
  let ?env = "\<lparr>color = [], envErrorRate = [], envLatency = []\<rparr>"
  have h1: "\<forall>cp \<in> set ?req. Color cp \<noteq> ''blue''" by simp
  have h2: "randomColor (rand (fresh (\<lambda>n. 4)) 0) = Some ''blue''"
    by (simp add: randomColor_def index_slice_def colors_def fresh_def)
  have h3: "\<forall>cp \<in> set ?req. Color cp \<noteq> resolvedColor ?env ''blue''"
    by (simp add: resolvedColor_def)
  note t1 = active_parameter_set [of "''blue''" ?req ?env "\<lambda>s. Inl []" "[]" "fresh (\<lambda>n. 4)"]
  note t2 = active_parameter_set [of "''red''" "[\<lparr>Color = ''red'', DelayProbability = Some 100, DelayLength = 2,
        Return500Probability = Some 100\<rparr>,
      \<lparr>Color = ''blue'', DelayProbability = None, DelayLength = 0,
        Return500Probability = None\<rparr>,
      \<lparr>Color = ''red'', DelayProbability = Some 5, DelayLength = 7,
        Return500Probability = None\<rparr>]" ?env "\<lambda>s. Inl []" "[]" "fresh (\<lambda>n. 4)"]
  from t1 h1 h2 h3 have
    a: "selectParams ''blue'' ?req = zeroParams" and
    b: "serveColor (\<lambda>s. Inl []) ?env [] ?req (fresh (\<lambda>n. 4)) =
        serveColor (\<lambda>s. Inl []) ?env [] [] (fresh (\<lambda>n. 4))"
    by blast+
  from t2 have c: "selectParams ''red'' [\<lparr>Color = ''red'', DelayProbability = Some 100, DelayLength = 2,
        Return500Probability = Some 100\<rparr>,
      \<lparr>Color = ''blue'', DelayProbability = None, DelayLength = 0,
        Return500Probability = None\<rparr>,
      \<lparr>Color = ''red'', DelayProbability = Some 5, DelayLength = 7,
        Return500Probability = None\<rparr>] =
     \<lparr>Color = ''red'', DelayProbability = Some 5, DelayLength = 7, Return500Probability = None\<rparr>"
    by simp
  from a b c h1 h2 show ?thesis by simp
qed

text \<open>
  C5. An empty body and the body \<^verbatim>\<open>"[]"\<close> (the four bytes of the code's literal: the two
  brackets between double quotes) are accepted without the decoder being asked, as the
  empty parameter sequence, and the handler then does exactly what it does with no
  per-request overrides. The same holds for the two-byte body \<^verbatim>\<open>[]\<close>, which goes to the
  decoder, when the decoder reads it as the empty array (as \<^verbatim>\<open>encoding/json\<close> does).
\<close>

theorem empty_bodies_accepted:
  "decodeRequest Unmarshal [] = Inr [] \<and>
   decodeRequest Unmarshal sentinel = Inr [] \<and>
   getColor Unmarshal Atoi env (Inr []) w = serveColor Atoi env [] [] w \<and>
   getColor Unmarshal Atoi env (Inr sentinel) w = serveColor Atoi env sentinel [] w \<and>
   (Unmarshal ''[]'' = Inr [] \<longrightarrow>
      decodeRequest Unmarshal ''[]'' = Inr [] \<and>
      getColor Unmarshal Atoi env (Inr ''[]'') w = serveColor Atoi env ''[]'' [] w)"
  by (simp add: getColor_def decodeRequest_def)

theorem empty_bodies_accepted_witness:
  "(\<lambda>b. if b = ''[]'' then Inr [] else Inl ''unexpected end of JSON input'') ''[]'' = Inr [] \<and>
   decodeRequest (\<lambda>b. if b = ''[]'' then Inr [] else Inl ''unexpected end of JSON input'') ''[]''
     = Inr [] \<and>
   getColor (\<lambda>b. if b = ''[]'' then Inr [] else Inl ''unexpected end of JSON input'')
     (\<lambda>s. Inl ''strconv.Atoi: parsing: invalid syntax'')
     \<lparr>color = [], envErrorRate = [], envLatency = []\<rparr> (Inr ''[]'') (fresh (\<lambda>n. 0)) =
   serveColor (\<lambda>s. Inl ''strconv.Atoi: parsing: invalid syntax'')
     \<lparr>color = [], envErrorRate = [], envLatency = []\<rparr> ''[]'' [] (fresh (\<lambda>n. 0))"
proof -
  let ?U = "\<lambda>b. if b = ''[]'' then Inr [] else (Inl ''unexpected end of JSON input''
    :: string + colorParameters list)"
  have h: "?U ''[]'' = Inr []" by simp
  from empty_bodies_accepted [of ?U "\<lambda>s. Inl ''strconv.Atoi: parsing: invalid syntax''"
      "\<lparr>color = [], envErrorRate = [], envLatency = []\<rparr>" "fresh (\<lambda>n. 0)"] h
  show ?thesis by simp
qed

text \<open>
  C6 fails on the code where the parse error text has a \<^verbatim>\<open>%\<close> in it. The body \<^verbatim>\<open>%\<close> is not
  empty, is not \<^verbatim>\<open>"[]"\<close> and is not JSON; \<^verbatim>\<open>json.Unmarshal\<close> reports
  \<^verbatim>\<open>invalid character '%' looking for beginning of value\<close>. The handler answers 500, sleeps
  and draws nothing and writes no colour, as C6 says, but the body it writes is not that
  text: line 202 passes the text to \<^verbatim>\<open>fmt.Fprintf\<close> as the format.
\<close>

theorem parse_error_body_mangled:
  "map_option (\<lambda>w. (status w, body w, slept w, logged w, rand w 0))
     (getColor
        (\<lambda>b. Inl (''invalid character '' @ [CHR 0x27] @ ''%'' @ [CHR 0x27] @
           '' looking for beginning of value''))
        (\<lambda>s. Inl []) \<lparr>color = [], envErrorRate = [], envLatency = []\<rparr> (Inr ''%'')
        (fresh (\<lambda>n. n))) =
     Some (Some 500,
       ''invalid character '' @ [CHR 0x27] @ ''%!'' @ [CHR 0x27] @
         ''(MISSING) looking for beginning of value'',
       [],
       [LogBodyError ''%'' (''invalid character '' @ [CHR 0x27] @ ''%'' @ [CHR 0x27] @
           '' looking for beginning of value'')],
       0) \<and>
   ''invalid character '' @ [CHR 0x27] @ ''%!'' @ [CHR 0x27] @
         ''(MISSING) looking for beginning of value'' \<noteq>
   ''invalid character '' @ [CHR 0x27] @ ''%'' @ [CHR 0x27] @ '' looking for beginning of value''"
proof -
  define ej where "ej = ''invalid character '' @ [CHR 0x27] @ ''%'' @ [CHR 0x27] @
       '' looking for beginning of value''"
  define em where "em = ''invalid character '' @ [CHR 0x27] @ ''%!'' @ [CHR 0x27] @
         ''(MISSING) looking for beginning of value''"
  have f: "doPrintf ej = em" unfolding ej_def em_def by code_simp
  have ne: "em \<noteq> ej" unfolding ej_def em_def by simp
  have "getColor (\<lambda>b. Inl ej) (\<lambda>s. Inl []) \<lparr>color = [], envErrorRate = [], envLatency = []\<rparr>
      (Inr ''%'') (fresh (\<lambda>n. n)) =
    Some (fail500 (LogBodyError ''%'' ej) ej (fresh (\<lambda>n. n)))"
    by (simp add: getColor_def decodeRequest_def sentinel_def)
  moreover have "status (fail500 (LogBodyError ''%'' ej) ej (fresh (\<lambda>n. n))) = Some 500"
    "body (fail500 (LogBodyError ''%'' ej) ej (fresh (\<lambda>n. n))) = em"
    "slept (fail500 (LogBodyError ''%'' ej) ej (fresh (\<lambda>n. n))) = []"
    "rand (fail500 (LogBodyError ''%'' ej) ej (fresh (\<lambda>n. n))) = (\<lambda>n. n)"
    by (simp_all only: fail500_fresh f)
  moreover have "logged (fail500 (LogBodyError ''%'' ej) ej (fresh (\<lambda>n. n))) =
      [LogBodyError ''%'' ej]"
    by (simp add: fail500_def Fprintf_format_def Write_def WriteHeader_def log_Print_def
        fresh_def Let_def del: doPrintf.simps)
  ultimately have "map_option (\<lambda>w. (status w, body w, slept w, logged w, rand w 0))
     (getColor (\<lambda>b. Inl ej) (\<lambda>s. Inl []) \<lparr>color = [], envErrorRate = [], envLatency = []\<rparr>
        (Inr ''%'') (fresh (\<lambda>n. n))) =
     Some (Some 500, em, [], [LogBodyError ''%'' ej], 0) \<and> em \<noteq> ej"
    using ne by (simp only: option.map prod.inject) simp
  then show ?thesis unfolding ej_def em_def .
qed

text \<open>
  C7, as the code has it. The probabilities of a decoded record are null or any integer:
  the handler takes what the decoder gives and checks no range. Without the \<^verbatim>\<open>LATENCY\<close> and
  \<^verbatim>\<open>ERROR_RATE\<close> overrides, a null probability is not applied and makes no draw; it is a
  value other than zero, yet a probability that is zero or negative is not applied either
  and makes no draw; a positive probability \<open>p\<close> makes one draw \<open>d\<close> and is applied exactly
  when \<open>d \<le> p\<close>, hence on every draw below 100 as soon as \<open>p \<ge> 99\<close>.
\<close>

theorem probabilities_unchecked:
  "(requestBody \<noteq> [] \<and> requestBody \<noteq> sentinel \<longrightarrow>
      decodeRequest Unmarshal requestBody = Unmarshal requestBody) \<and>
   (None :: int option) \<noteq> Some 0 \<and>
   (envLatency env = [] \<longrightarrow>
      (DelayProbability cp = None \<longrightarrow> delayDecision Atoi env requestBody c cp w = Inr w) \<and>
      (\<forall>p. DelayProbability cp = Some p \<and> p \<le> 0 \<longrightarrow>
         delayDecision Atoi env requestBody c cp w = Inr w) \<and>
      (\<forall>p. DelayProbability cp = Some p \<and> 0 < p \<longrightarrow>
         delayDecision Atoi env requestBody c cp w =
           Inr (if int (rand w 0) \<le> p
                then time_Sleep (seconds (DelayLength cp))
                       (log_Print (LogDelaying c (DelayLength cp)) (drawn w))
                else drawn w)) \<and>
      (\<forall>p. DelayProbability cp = Some p \<and> 99 \<le> p \<and> rand w 0 < 100 \<longrightarrow>
         delayDecision Atoi env requestBody c cp w =
           Inr (time_Sleep (seconds (DelayLength cp))
                  (log_Print (LogDelaying c (DelayLength cp)) (drawn w))))) \<and>
   (envErrorRate env = [] \<longrightarrow>
      (Return500Probability cp = None \<longrightarrow>
         failureDecision Atoi env requestBody cp w = Inr (True, w)) \<and>
      (\<forall>p. Return500Probability cp = Some p \<and> p \<le> 0 \<longrightarrow>
         failureDecision Atoi env requestBody cp w = Inr (True, w)) \<and>
      (\<forall>p. Return500Probability cp = Some p \<and> 0 < p \<longrightarrow>
         failureDecision Atoi env requestBody cp w = Inr (\<not> int (rand w 0) \<le> p, drawn w)) \<and>
      (\<forall>p. Return500Probability cp = Some p \<and> 99 \<le> p \<and> rand w 0 < 100 \<longrightarrow>
         failureDecision Atoi env requestBody cp w = Inr (False, drawn w)))"
proof (intro conjI impI allI)
  assume "requestBody \<noteq> [] \<and> requestBody \<noteq> sentinel"
  then show "decodeRequest Unmarshal requestBody = Unmarshal requestBody"
    by (simp add: decodeRequest_def)
next
  show "(None :: int option) \<noteq> Some 0" by simp
next
  assume "envLatency env = []" "DelayProbability cp = None"
  then show "delayDecision Atoi env requestBody c cp w = Inr w"
    by (simp add: delayDecision_request)
next
  fix p assume "envLatency env = []" "DelayProbability cp = Some p \<and> p \<le> 0"
  then show "delayDecision Atoi env requestBody c cp w = Inr w"
    by (simp add: delayDecision_request)
next
  fix p assume "envLatency env = []" "DelayProbability cp = Some p \<and> 0 < p"
  then show "delayDecision Atoi env requestBody c cp w =
           Inr (if int (rand w 0) \<le> p
                then time_Sleep (seconds (DelayLength cp))
                       (log_Print (LogDelaying c (DelayLength cp)) (drawn w))
                else drawn w)"
    by (simp add: delayDecision_request)
next
  fix p assume "envLatency env = []" "DelayProbability cp = Some p \<and> 99 \<le> p \<and> rand w 0 < 100"
  then show "delayDecision Atoi env requestBody c cp w =
           Inr (time_Sleep (seconds (DelayLength cp))
                  (log_Print (LogDelaying c (DelayLength cp)) (drawn w)))"
    by (simp add: delayDecision_request)
next
  assume "envErrorRate env = []" "Return500Probability cp = None"
  then show "failureDecision Atoi env requestBody cp w = Inr (True, w)"
    by (simp add: failureDecision_request)
next
  fix p assume "envErrorRate env = []" "Return500Probability cp = Some p \<and> p \<le> 0"
  then show "failureDecision Atoi env requestBody cp w = Inr (True, w)"
    by (simp add: failureDecision_request)
next
  fix p assume "envErrorRate env = []" "Return500Probability cp = Some p \<and> 0 < p"
  then show "failureDecision Atoi env requestBody cp w = Inr (\<not> int (rand w 0) \<le> p, drawn w)"
    by (simp add: failureDecision_request)
next
  fix p assume "envErrorRate env = []"
    "Return500Probability cp = Some p \<and> 99 \<le> p \<and> rand w 0 < 100"
  then show "failureDecision Atoi env requestBody cp w = Inr (False, drawn w)"
    by (simp add: failureDecision_request)
qed

theorem probabilities_unchecked_witness:
  "''[{}]'' \<noteq> [] \<and> ''[{}]'' \<noteq> sentinel \<and>
   envLatency \<lparr>color = [], envErrorRate = [], envLatency = []\<rparr> = [] \<and>
   envErrorRate \<lparr>color = [], envErrorRate = [], envLatency = []\<rparr> = [] \<and>
   decodeRequest (\<lambda>b. Inr [zeroParams]) ''[{}]'' = Inr [zeroParams] \<and>
   DelayProbability \<lparr>Color = ''red'', DelayProbability = Some 500, DelayLength = 2,
      Return500Probability = None\<rparr> = Some 500 \<and> (0 :: int) < 500 \<and> (99 :: int) \<le> 500 \<and>
   rand (fresh (\<lambda>n. 99)) 0 < 100 \<and>
   delayDecision (\<lambda>s. Inl []) \<lparr>color = [], envErrorRate = [], envLatency = []\<rparr> ''[{}]'' ''red''
     \<lparr>Color = ''red'', DelayProbability = Some 500, DelayLength = 2,
      Return500Probability = None\<rparr> (fresh (\<lambda>n. 99)) =
     Inr (time_Sleep (seconds 2) (log_Print (LogDelaying ''red'' 2) (drawn (fresh (\<lambda>n. 99))))) \<and>
   failureDecision (\<lambda>s. Inl []) \<lparr>color = [], envErrorRate = [], envLatency = []\<rparr> ''[{}]''
     \<lparr>Color = ''red'', DelayProbability = Some 500, DelayLength = 2,
      Return500Probability = None\<rparr> (fresh (\<lambda>n. 99)) = Inr (True, fresh (\<lambda>n. 99)) \<and>
   Return500Probability \<lparr>Color = ''red'', DelayProbability = Some 0, DelayLength = 5,
      Return500Probability = Some 150\<rparr> = Some 150 \<and> (0 :: int) < 150 \<and> (99 :: int) \<le> 150 \<and>
   (0 :: int) \<le> 0 \<and>
   delayDecision (\<lambda>s. Inl []) \<lparr>color = [], envErrorRate = [], envLatency = []\<rparr> ''[{}]'' ''red''
     \<lparr>Color = ''red'', DelayProbability = Some 0, DelayLength = 5,
      Return500Probability = Some 150\<rparr> (fresh (\<lambda>n. 99)) = Inr (fresh (\<lambda>n. 99)) \<and>
   failureDecision (\<lambda>s. Inl []) \<lparr>color = [], envErrorRate = [], envLatency = []\<rparr> ''[{}]''
     \<lparr>Color = ''red'', DelayProbability = Some 0, DelayLength = 5,
      Return500Probability = Some 150\<rparr> (fresh (\<lambda>n. 99)) =
     Inr (False, drawn (fresh (\<lambda>n. 99)))"
proof -
  let ?e = "\<lparr>color = [], envErrorRate = [], envLatency = []\<rparr>"
  let ?A = "\<lambda>s :: string. (Inl [] :: string + int)"
  let ?U = "\<lambda>b :: string. (Inr [zeroParams] :: string + colorParameters list)"
  let ?a = "\<lparr>Color = ''red'', DelayProbability = Some 500, DelayLength = 2,
      Return500Probability = None\<rparr>"
  let ?c = "\<lparr>Color = ''red'', DelayProbability = Some 0, DelayLength = 5,
      Return500Probability = Some 150\<rparr>"
  let ?w = "fresh (\<lambda>n. 99)"
  have nb: "''[{}]'' \<noteq> [] \<and> ''[{}]'' \<noteq> sentinel" by (simp add: sentinel_def)
  have e: "envLatency ?e = []" "envErrorRate ?e = []" by simp_all
  have r: "rand ?w 0 < 100" by (simp add: fresh_def)
  note ta = probabilities_unchecked [where requestBody = "''[{}]''" and Unmarshal = ?U
      and env = ?e and cp = ?a and Atoi = ?A and c = "''red''" and w = ?w]
  note tc = probabilities_unchecked [where requestBody = "''[{}]''" and Unmarshal = ?U
      and env = ?e and cp = ?c and Atoi = ?A and c = "''red''" and w = ?w]
  from ta nb have d: "decodeRequest ?U ''[{}]'' = Inr [zeroParams]" by simp
  have pa: "DelayProbability ?a = Some 500 \<and> (99 :: int) \<le> 500 \<and> rand ?w 0 < 100"
    using r by simp
  from ta e pa have a1: "delayDecision ?A ?e ''[{}]'' ''red'' ?a ?w =
      Inr (time_Sleep (seconds (DelayLength ?a))
        (log_Print (LogDelaying ''red'' (DelayLength ?a)) (drawn ?w)))"
    by blast
  have "Return500Probability ?a = None" by simp
  with ta e have a2: "failureDecision ?A ?e ''[{}]'' ?a ?w = Inr (True, ?w)" by blast
  have pc: "DelayProbability ?c = Some 0 \<and> (0 :: int) \<le> 0" by simp
  from tc e pc have c1: "delayDecision ?A ?e ''[{}]'' ''red'' ?c ?w = Inr ?w" by blast
  have pr: "Return500Probability ?c = Some 150 \<and> (99 :: int) \<le> 150 \<and> rand ?w 0 < 100"
    using r by simp
  from tc e pr have c2: "failureDecision ?A ?e ''[{}]'' ?c ?w = Inr (False, drawn ?w)" by blast
  from nb d r a1 a2 c1 c2 show ?thesis by simp
qed

text \<open>
  C7 as stated fails: nothing restricts a decoded probability to the range from 0 to 100.
  The body \<^verbatim>\<open>[{"color":"red","delayPercent":500,"delayLength":2,"return500":-7}]\<close> decodes
  (into \<^verbatim>\<open>*int\<close> fields) to a record with the probabilities 500 and -7; the handler takes
  it as it is, sleeps the two seconds on the draw 99, and answers 200.
\<close>

theorem probabilities_counterexample:
  "decodeRequest
     (\<lambda>b. Inr [\<lparr>Color = ''red'', DelayProbability = Some 500, DelayLength = 2,
                 Return500Probability = Some (- 7)\<rparr>])
     (''[{'' @ quoted ''color'' @ '':'' @ quoted ''red'' @ '','' @ quoted ''delayPercent'' @
      '':500,'' @ quoted ''delayLength'' @ '':2,'' @ quoted ''return500'' @ '':-7}]'') =
     Inr [\<lparr>Color = ''red'', DelayProbability = Some 500, DelayLength = 2,
            Return500Probability = Some (- 7)\<rparr>] \<and>
   \<not> (500 :: int) \<le> 100 \<and> \<not> (0 :: int) \<le> - 7 \<and>
   map_option (\<lambda>w. (status w, body w, slept w))
     (getColor
        (\<lambda>b. Inr [\<lparr>Color = ''red'', DelayProbability = Some 500, DelayLength = 2,
                    Return500Probability = Some (- 7)\<rparr>])
        (\<lambda>s. Inl [])
        \<lparr>color = ''red'', envErrorRate = [], envLatency = []\<rparr>
        (Inr (''[{'' @ quoted ''color'' @ '':'' @ quoted ''red'' @ '','' @
           quoted ''delayPercent'' @ '':500,'' @ quoted ''delayLength'' @ '':2,'' @
           quoted ''return500'' @ '':-7}]''))
        (fresh (\<lambda>n. 99))) =
     Some (Some 200, quoted ''red'', [2000000000])"
proof -
  define b where "b = ''[{'' @ quoted ''color'' @ '':'' @ quoted ''red'' @ '','' @
      quoted ''delayPercent'' @ '':500,'' @ quoted ''delayLength'' @ '':2,'' @
      quoted ''return500'' @ '':-7}]''"
  let ?r = "\<lparr>Color = ''red'', DelayProbability = Some 500, DelayLength = 2,
                 Return500Probability = Some (- 7)\<rparr>"
  let ?U = "\<lambda>b :: string. (Inr [?r] :: string + colorParameters list)"
  let ?e = "\<lparr>color = ''red'', envErrorRate = [], envLatency = []\<rparr>"
  have d: "decodeRequest ?U b = Inr [?r]"
    unfolding b_def by (simp add: decodeRequest_def sentinel_def quoted_def)
  have s: "seconds 2 = 2000000000" by (simp add: seconds_exact)
  have sel: "selectParams ''red'' [?r] = ?r" by (simp add: selectParams_def)
  have "map_option (\<lambda>w. (status w, body w, slept w))
     (getColor ?U (\<lambda>s. Inl []) ?e (Inr b) (fresh (\<lambda>n. 99))) =
     Some (Some 200, quoted ''red'', [2000000000])"
    by (simp add: getColor_def d serveColor_eq resolvedColor_def sel delayDecision_request
        failureDecision_request printColor_def Fprintf_quoted_def Write_def WriteHeader_def
        log_Print_def Header_Set_def time_Sleep_def drawn_def fresh_def s Let_def)
  with d show ?thesis unfolding b_def by simp
qed

text \<open>
  C8. Every call of the random colour selector returns a member of the palette of six: the
  index computed is within the bounds of the slice. So a request handled with no \<^verbatim>\<open>COLOR\<close>
  override never produces a value that is not in the palette: either its body is read and
  decoded and \<^verbatim>\<open>LATENCY\<close> and \<^verbatim>\<open>ERROR_RATE\<close> are each unset or an integer, and then the
  response body is the palette member just drawn, between double quotes, with status 200
  or 500; or the request ends on one of the four error exits, under that exit's own
  condition (the body cannot be read, it does not decode, \<^verbatim>\<open>LATENCY\<close> is set and not an
  integer, \<^verbatim>\<open>ERROR_RATE\<close> is set and not an integer), with status 500 and the formatted
  error text and no colour at all.
\<close>

theorem randomColor_in_palette:
  "length colors = 6 \<and>
   0 \<le> int r mod int (length colors) \<and> int r mod int (length colors) < int (length colors) \<and>
   (\<exists>c. randomColor r = Some c \<and> c \<in> set colors) \<and>
   (\<exists>w'. serveColor Atoi (env\<lparr>color := []\<rparr>) requestBody request (fresh src) = Some w' \<and>
      (((envLatency env = [] \<or> \<not> isl (Atoi (envLatency env))) \<and>
        (envErrorRate env = [] \<or> \<not> isl (Atoi (envErrorRate env))) \<and>
        colors ! (src 0 mod 6) \<in> set colors \<and>
        randomColor (src 0) = Some (colors ! (src 0 mod 6)) \<and>
        body w' = quoted (colors ! (src 0 mod 6)) \<and>
        (status w' = Some 200 \<or> status w' = Some 500)) \<or>
       (\<exists>e. ((envLatency env \<noteq> [] \<and> Atoi (envLatency env) = Inl e) \<or>
             ((envLatency env = [] \<or> \<not> isl (Atoi (envLatency env))) \<and>
              envErrorRate env \<noteq> [] \<and> Atoi (envErrorRate env) = Inl e)) \<and>
            status w' = Some 500 \<and> body w' = doPrintf e))) \<and>
   (\<exists>w'. getColor Unmarshal Atoi (env\<lparr>color := []\<rparr>) readAll (fresh src) = Some w' \<and>
      ((\<exists>b req. readAll = Inr b \<and> decodeRequest Unmarshal b = Inr req \<and>
          (envLatency env = [] \<or> \<not> isl (Atoi (envLatency env))) \<and>
          (envErrorRate env = [] \<or> \<not> isl (Atoi (envErrorRate env))) \<and>
          colors ! (src 0 mod 6) \<in> set colors \<and>
          body w' = quoted (colors ! (src 0 mod 6)) \<and>
          (status w' = Some 200 \<or> status w' = Some 500)) \<or>
       (\<exists>e. (readAll = Inl e \<or>
             (\<exists>b. readAll = Inr b \<and> decodeRequest Unmarshal b = Inl e) \<or>
             (\<exists>b req. readAll = Inr b \<and> decodeRequest Unmarshal b = Inr req \<and>
                ((envLatency env \<noteq> [] \<and> Atoi (envLatency env) = Inl e) \<or>
                 ((envLatency env = [] \<or> \<not> isl (Atoi (envLatency env))) \<and>
                  envErrorRate env \<noteq> [] \<and> Atoi (envErrorRate env) = Inl e)))) \<and>
            status w' = Some 500 \<and> body w' = doPrintf e)))"
proof -
  define e0 where "e0 = env\<lparr>color := []\<rparr>"
  define c where "c = colors ! (src 0 mod 6)"
  have c: "c \<in> set colors" unfolding c_def by (rule nth_colors_mem)
  then have cne: "c \<noteq> []" by (rule colors_nonempty_names)
  have rc: "randomColor (src 0) = Some c" unfolding c_def by (rule randomColor_eq)
  have e0: "color e0 = []" "envLatency e0 = envLatency env" "envErrorRate e0 = envErrorRate env"
    by (simp_all add: e0_def)
  have res: "resolvedColor e0 (colors ! (rand (fresh src) 0 mod 6)) = c"
    by (simp add: resolvedColor_def e0 c_def fresh_def)
  have serve: "\<exists>w'. serveColor Atoi e0 b req (fresh src) = Some w' \<and>
      (((envLatency env = [] \<or> \<not> isl (Atoi (envLatency env))) \<and>
        (envErrorRate env = [] \<or> \<not> isl (Atoi (envErrorRate env))) \<and>
        c \<in> set colors \<and> randomColor (src 0) = Some c \<and> body w' = quoted c \<and>
        (status w' = Some 200 \<or> status w' = Some 500)) \<or>
       (\<exists>e. ((envLatency env \<noteq> [] \<and> Atoi (envLatency env) = Inl e) \<or>
             ((envLatency env = [] \<or> \<not> isl (Atoi (envLatency env))) \<and>
              envErrorRate env \<noteq> [] \<and> Atoi (envErrorRate env) = Inl e)) \<and>
            status w' = Some 500 \<and> body w' = doPrintf e))" for b req
  proof -
    define w1 where "w1 = drawn (fresh src)"
    define cp where "cp = selectParams c req"
    have w1: "status w1 = None" "body w1 = []" by (simp_all add: w1_def drawn_fields fresh_def)
    show ?thesis
    proof (cases "delayDecision Atoi e0 b c cp w1")
      case (Inl x)
      from delayDecision_Inl [OF Inl] e0 obtain e where
        e: "envLatency env \<noteq> []" "Atoi (envLatency env) = Inl e"
          "x = fail500 (LogBodyError b e) e w1" by auto
      from fail500_open [OF w1(1), of "LogBodyError b e" e] e(3) w1(2)
      have x: "status x = Some 500" "body x = doPrintf e" by simp_all
      have "serveColor Atoi e0 b req (fresh src) = Some x"
        using Inl by (simp add: serveColor_eq res cp_def w1_def)
      with x e(1,2) show ?thesis by blast
    next
      case del: (Inr w2)
      from delayDecision_Inr [OF del] w1 have w2: "status w2 = None" "body w2 = []" by simp_all
      from delayDecision_Inr_guard [OF del] e0
      have lat: "envLatency env = [] \<or> \<not> isl (Atoi (envLatency env))" by simp
      show ?thesis
      proof (cases "failureDecision Atoi e0 b cp w2")
        case (Inl x)
        from failureDecision_Inl [OF Inl] e0 obtain e where
          e: "envErrorRate env \<noteq> []" "Atoi (envErrorRate env) = Inl e"
            "x = fail500 (LogBodyError b e) e w2" by auto
        from fail500_open [OF w2(1), of "LogBodyError b e" e] e(3) w2(2)
        have x: "status x = Some 500" "body x = doPrintf e" by simp_all
        have "serveColor Atoi e0 b req (fresh src) = Some x"
          using Inl del by (simp add: serveColor_eq res cp_def w1_def)
        with x e(1,2) lat show ?thesis by blast
      next
        case fd: (Inr p)
        obtain ok w3 where p: "p = (ok, w3)" by (cases p)
        from failureDecision_Inr [OF fd [unfolded p]] w2
        have w3: "status w3 = None" "body w3 = []" by simp_all
        from failureDecision_Inr_guard [OF fd] e0
        have er: "envErrorRate env = [] \<or> \<not> isl (Atoi (envErrorRate env))" by simp
        from printColor_named [OF cne w3(1), of ok] w3(2) obtain w' where
          w': "printColor c ok w3 = Some w'" "body w' = quoted c"
            "status w' = Some (if ok then 200 else 500)" by auto
        from w'(3) have st: "status w' = Some 200 \<or> status w' = Some 500" by (cases ok) simp_all
        have "serveColor Atoi e0 b req (fresh src) = Some w'"
          using fd p w'(1) del by (simp add: serveColor_eq res cp_def w1_def)
        with w'(2) st c rc lat er show ?thesis by blast
      qed
    qed
  qed
  have handler: "\<exists>w'. getColor Unmarshal Atoi e0 readAll (fresh src) = Some w' \<and>
      ((\<exists>b req. readAll = Inr b \<and> decodeRequest Unmarshal b = Inr req \<and>
          (envLatency env = [] \<or> \<not> isl (Atoi (envLatency env))) \<and>
          (envErrorRate env = [] \<or> \<not> isl (Atoi (envErrorRate env))) \<and>
          c \<in> set colors \<and> body w' = quoted c \<and>
          (status w' = Some 200 \<or> status w' = Some 500)) \<or>
       (\<exists>e. (readAll = Inl e \<or>
             (\<exists>b. readAll = Inr b \<and> decodeRequest Unmarshal b = Inl e) \<or>
             (\<exists>b req. readAll = Inr b \<and> decodeRequest Unmarshal b = Inr req \<and>
                ((envLatency env \<noteq> [] \<and> Atoi (envLatency env) = Inl e) \<or>
                 ((envLatency env = [] \<or> \<not> isl (Atoi (envLatency env))) \<and>
                  envErrorRate env \<noteq> [] \<and> Atoi (envErrorRate env) = Inl e)))) \<and>
            status w' = Some 500 \<and> body w' = doPrintf e))"
  proof (cases readAll)
    case (Inl e)
    then have "getColor Unmarshal Atoi e0 readAll (fresh src) =
        Some (fail500 (LogError e) e (fresh src))"
      by (simp add: getColor_def)
    moreover have "status (fail500 (LogError e) e (fresh src)) = Some 500"
      "body (fail500 (LogError e) e (fresh src)) = doPrintf e"
      by (rule fail500_fresh)+
    ultimately show ?thesis using Inl by blast
  next
    case (Inr b)
    show ?thesis
    proof (cases "decodeRequest Unmarshal b")
      case (Inl e)
      with Inr have "getColor Unmarshal Atoi e0 readAll (fresh src) =
          Some (fail500 (LogBodyError b e) e (fresh src))"
        by (simp add: getColor_def)
      moreover have "status (fail500 (LogBodyError b e) e (fresh src)) = Some 500"
        "body (fail500 (LogBodyError b e) e (fresh src)) = doPrintf e"
        by (rule fail500_fresh)+
      ultimately show ?thesis using Inr Inl by blast
    next
      case dec: (Inr req)
      from Inr dec have g: "getColor Unmarshal Atoi e0 readAll (fresh src) =
          serveColor Atoi e0 b req (fresh src)"
        by (simp add: getColor_def)
      from serve [of b req] obtain w' where
        w': "serveColor Atoi e0 b req (fresh src) = Some w'"
        and alt: "((envLatency env = [] \<or> \<not> isl (Atoi (envLatency env))) \<and>
          (envErrorRate env = [] \<or> \<not> isl (Atoi (envErrorRate env))) \<and>
          c \<in> set colors \<and> randomColor (src 0) = Some c \<and> body w' = quoted c \<and>
          (status w' = Some 200 \<or> status w' = Some 500)) \<or>
         (\<exists>e. ((envLatency env \<noteq> [] \<and> Atoi (envLatency env) = Inl e) \<or>
             ((envLatency env = [] \<or> \<not> isl (Atoi (envLatency env))) \<and>
              envErrorRate env \<noteq> [] \<and> Atoi (envErrorRate env) = Inl e)) \<and>
            status w' = Some 500 \<and> body w' = doPrintf e)"
        by blast
      from alt show ?thesis
      proof
        assume "(envLatency env = [] \<or> \<not> isl (Atoi (envLatency env))) \<and>
          (envErrorRate env = [] \<or> \<not> isl (Atoi (envErrorRate env))) \<and>
          c \<in> set colors \<and> randomColor (src 0) = Some c \<and> body w' = quoted c \<and>
          (status w' = Some 200 \<or> status w' = Some 500)"
        with g w' Inr dec show ?thesis by auto
      next
        assume "\<exists>e. ((envLatency env \<noteq> [] \<and> Atoi (envLatency env) = Inl e) \<or>
             ((envLatency env = [] \<or> \<not> isl (Atoi (envLatency env))) \<and>
              envErrorRate env \<noteq> [] \<and> Atoi (envErrorRate env) = Inl e)) \<and>
            status w' = Some 500 \<and> body w' = doPrintf e"
        then obtain e where e: "(envLatency env \<noteq> [] \<and> Atoi (envLatency env) = Inl e) \<or>
             ((envLatency env = [] \<or> \<not> isl (Atoi (envLatency env))) \<and>
              envErrorRate env \<noteq> [] \<and> Atoi (envErrorRate env) = Inl e)"
          "status w' = Some 500" "body w' = doPrintf e" by blast
        have "getColor Unmarshal Atoi e0 readAll (fresh src) = Some w'" using g w' by simp
        moreover have "\<exists>b req. readAll = Inr b \<and> decodeRequest Unmarshal b = Inr req \<and>
                ((envLatency env \<noteq> [] \<and> Atoi (envLatency env) = Inl e) \<or>
                 ((envLatency env = [] \<or> \<not> isl (Atoi (envLatency env))) \<and>
                  envErrorRate env \<noteq> [] \<and> Atoi (envErrorRate env) = Inl e))"
          using Inr dec e(1) by blast
        ultimately show ?thesis using e(2,3) by blast
      qed
    qed
  qed
  have a: "length colors = 6" by (simp add: colors_def)
  have b: "0 \<le> int r mod int (length colors)" "int r mod int (length colors) < int (length colors)"
    by (simp_all add: a)
  have d: "\<exists>c. randomColor r = Some c \<and> c \<in> set colors"
    using randomColor_eq [of r] nth_colors_mem [of r] by simp
  from a b d serve [of requestBody request] handler show ?thesis
    unfolding e0_def c_def by (intro conjI)
qed

theorem randomColor_in_palette_witness:
  "envLatency \<lparr>color = [], envErrorRate = [], envLatency = []\<rparr> = [] \<and>
   envErrorRate \<lparr>color = [], envErrorRate = [], envLatency = []\<rparr> = [] \<and>
   randomColor 4 = Some ''blue'' \<and> ''blue'' \<in> set colors \<and>
   (\<exists>w'. getColor
      (\<lambda>b. Inr [\<lparr>Color = ''blue'', DelayProbability = None, DelayLength = 0,
                 Return500Probability = Some 100\<rparr>])
      (\<lambda>s. Inl ''invalid syntax'')
      (\<lparr>color = [], envErrorRate = [], envLatency = []\<rparr>\<lparr>color := []\<rparr>)
      (Inr ''[{}]'') (fresh (\<lambda>n. 4)) = Some w' \<and>
      body w' = quoted ''blue'' \<and> (status w' = Some 200 \<or> status w' = Some 500))"
proof -
  let ?e = "\<lparr>color = [], envErrorRate = [], envLatency = []\<rparr>"
  let ?U = "\<lambda>b :: string. (Inr [\<lparr>Color = ''blue'', DelayProbability = None, DelayLength = 0,
                 Return500Probability = Some 100\<rparr>] :: string + colorParameters list)"
  let ?A = "\<lambda>s :: string. (Inl ''invalid syntax'' :: string + int)"
  have e: "envLatency ?e = []" "envErrorRate ?e = []" by simp_all
  have blue: "colors ! ((\<lambda>n. 4 :: nat) 0 mod 6) = ''blue''" by (simp add: colors_def)
  note t = randomColor_in_palette [where r = 4 and Atoi = ?A and env = ?e
      and requestBody = "''[{}]''" and request = "[]" and src = "\<lambda>n. 4" and Unmarshal = ?U
      and readAll = "Inr ''[{}]''"]
  from t obtain w' where
    g: "getColor ?U ?A (?e\<lparr>color := []\<rparr>) (Inr ''[{}]'') (fresh (\<lambda>n. 4)) = Some w'"
    and alt: "(colors ! ((\<lambda>n. 4 :: nat) 0 mod 6) \<in> set colors \<and>
          body w' = quoted (colors ! ((\<lambda>n. 4 :: nat) 0 mod 6)) \<and>
          (status w' = Some 200 \<or> status w' = Some 500)) \<or>
       (\<exists>e. (Inr ''[{}]'' = (Inl e :: string + string) \<or>
             (\<exists>b. (Inr ''[{}]'' :: string + string) = Inr b \<and> decodeRequest ?U b = Inl e) \<or>
             (envLatency ?e \<noteq> [] \<or> envErrorRate ?e \<noteq> [])))"
    by blast
  have nodec: "\<And>b e. decodeRequest ?U b \<noteq> Inl e" by (simp add: decodeRequest_def)
  from alt e nodec have ok: "colors ! ((\<lambda>n. 4 :: nat) 0 mod 6) \<in> set colors \<and>
          body w' = quoted (colors ! ((\<lambda>n. 4 :: nat) 0 mod 6)) \<and>
          (status w' = Some 200 \<or> status w' = Some 500)"
    by auto
  from t have rc: "\<exists>c. randomColor 4 = Some c \<and> c \<in> set colors" by blast
  have r4: "randomColor 4 = Some ''blue''" using randomColor_eq [of 4] by (simp add: colors_def)
  from g ok r4 rc e show ?thesis unfolding blue by auto
qed

text \<open>
  C9. In every run of the shutdown goroutine the channel \<^verbatim>\<open>done\<close> is closed at most once,
  and when it is closed, \<^verbatim>\<open>server.Shutdown\<close> (called with a 30 second timeout) has returned no
  error and the close is the very next thing done. When \<^verbatim>\<open>server.Shutdown\<close> returns an error,
  the run ends in \<^verbatim>\<open>log.Fatalf\<close> and the exit of the process with status 1, and \<^verbatim>\<open>done\<close> is
  never closed. When it returns no error, \<^verbatim>\<open>done\<close> is closed.
\<close>

theorem done_closed_after_shutdown:
  "count_list (shutdownGoroutine terminationDelay sig fired shutdownErr) CloseDone \<le> 1 \<and>
   (CloseDone \<in> set (shutdownGoroutine terminationDelay sig fired shutdownErr) \<longrightarrow>
      shutdownErr = None \<and>
      (\<exists>pre post. shutdownGoroutine terminationDelay sig fired shutdownErr =
          pre @ ServerShutdown 30000000000 # CloseDone # post \<and>
        CloseDone \<notin> set pre \<and> CloseDone \<notin> set post)) \<and>
   (\<forall>err. shutdownErr = Some err \<longrightarrow>
      CloseDone \<notin> set (shutdownGoroutine terminationDelay sig fired shutdownErr) \<and>
      (0 < seconds terminationDelay \<longrightarrow>
         (\<exists>pre. shutdownGoroutine terminationDelay sig fired shutdownErr =
            pre @ [ServerShutdown 30000000000, LogFatal err, OsExit 1]))) \<and>
   (shutdownErr = None \<and> 0 < seconds terminationDelay \<longrightarrow>
      CloseDone \<in> set (shutdownGoroutine terminationDelay sig fired shutdownErr))"
proof -
  let ?t = "shutdownGoroutine terminationDelay sig fired shutdownErr"
  let ?log = "case fired of SecondSignal s \<Rightarrow> [LogSecondSignal] | TickerFired \<Rightarrow> []"
  let ?head = "[SetKeepAlivesEnabled False, LogSignalCaught sig terminationDelay,
       NewTicker (seconds terminationDelay)] @ ?log"
  have nolog: "CloseDone \<notin> set ?log" by (cases fired) simp_all
  have nohead: "CloseDone \<notin> set ?head" using nolog by simp
  show ?thesis
  proof (cases "seconds terminationDelay \<le> 0")
    case True
    then have "?t = [SetKeepAlivesEnabled False, LogSignalCaught sig terminationDelay,
        PanicNonPositiveInterval]"
      by (simp add: shutdownGoroutine_def)
    then have n: "CloseDone \<notin> set ?t" by simp
    then have "count_list ?t CloseDone = 0" by (simp add: count_list_0_iff)
    with n True show ?thesis by auto
  next
    case False
    show ?thesis
    proof (cases shutdownErr)
      case None
      with False have t: "?t = ?head @ ServerShutdown 30000000000 # CloseDone # [Cancel, TickerStop]"
        by (simp add: shutdownGoroutine_def Second_def)
      have c: "count_list ?t CloseDone \<le> 1"
        unfolding t using nolog by (cases fired) simp_all
      have "CloseDone \<notin> set [Cancel, TickerStop]" by simp
      with t nohead have "\<exists>pre post. ?t = pre @ ServerShutdown 30000000000 # CloseDone # post \<and>
          CloseDone \<notin> set pre \<and> CloseDone \<notin> set post"
        by blast
      moreover have "CloseDone \<in> set ?t" unfolding t by simp
      ultimately show ?thesis using c None by simp
    next
      case (Some err)
      with False have t: "?t = ?head @ [ServerShutdown 30000000000, LogFatal err, OsExit 1]"
        by (simp add: shutdownGoroutine_def Second_def)
      have n: "CloseDone \<notin> set ?t" unfolding t using nolog by simp
      then have c: "count_list ?t CloseDone = 0" by (simp add: count_list_0_iff)
      from t have "\<exists>pre. ?t = pre @ [ServerShutdown 30000000000, LogFatal err, OsExit 1]"
        by blast
      with n c Some show ?thesis by simp
    qed
  qed
qed

theorem done_closed_after_shutdown_witness:
  "shutdownGoroutine 10 SIGTERM TickerFired None =
     [SetKeepAlivesEnabled False, LogSignalCaught SIGTERM 10, NewTicker 10000000000,
      ServerShutdown 30000000000, CloseDone, Cancel, TickerStop] \<and>
   CloseDone \<in> set (shutdownGoroutine 10 SIGTERM TickerFired None) \<and>
   0 < seconds 10 \<and>
   (\<exists>pre post. shutdownGoroutine 10 SIGTERM TickerFired None =
      pre @ ServerShutdown 30000000000 # CloseDone # post \<and>
      CloseDone \<notin> set pre \<and> CloseDone \<notin> set post) \<and>
   CloseDone \<notin> set (shutdownGoroutine 10 SIGINT (SecondSignal SIGINT)
      (Some ''context deadline exceeded'')) \<and>
   (\<exists>pre. shutdownGoroutine 10 SIGINT (SecondSignal SIGINT) (Some ''context deadline exceeded'') =
      pre @ [ServerShutdown 30000000000, LogFatal ''context deadline exceeded'', OsExit 1])"
proof -
  have s: "seconds 10 = 10000000000" by (simp add: seconds_exact)
  then have pos: "0 < seconds 10" by simp
  have run: "shutdownGoroutine 10 SIGTERM TickerFired None =
     [SetKeepAlivesEnabled False, LogSignalCaught SIGTERM 10, NewTicker 10000000000,
      ServerShutdown 30000000000, CloseDone, Cancel, TickerStop]"
    by (simp add: shutdownGoroutine_def s Second_def)
  note ok = done_closed_after_shutdown [of 10 SIGTERM TickerFired None]
  note bad = done_closed_after_shutdown [of 10 SIGINT "SecondSignal SIGINT"
      "Some ''context deadline exceeded''"]
  from ok pos have closed: "CloseDone \<in> set (shutdownGoroutine 10 SIGTERM TickerFired None)"
    by blast
  with ok have after: "\<exists>pre post. shutdownGoroutine 10 SIGTERM TickerFired None =
      pre @ ServerShutdown 30000000000 # CloseDone # post \<and>
      CloseDone \<notin> set pre \<and> CloseDone \<notin> set post"
    by blast
  from bad pos have fatal:
    "CloseDone \<notin> set (shutdownGoroutine 10 SIGINT (SecondSignal SIGINT)
      (Some ''context deadline exceeded''))"
    "\<exists>pre. shutdownGoroutine 10 SIGINT (SecondSignal SIGINT) (Some ''context deadline exceeded'') =
      pre @ [ServerShutdown 30000000000, LogFatal ''context deadline exceeded'', OsExit 1]"
    by blast+
  from run closed pos after fatal show ?thesis by (intro conjI)
qed

text \<open>
  C10. On each of the four error exits of the handler (the body cannot be read; it does not
  decode; \<^verbatim>\<open>LATENCY\<close> is not an integer; \<^verbatim>\<open>ERROR_RATE\<close> is not an integer) the response is
  500 and its body is what \<^verbatim>\<open>fmt.Fprintf\<close> makes of the error text taken as a format with
  no operands. That body is the error text itself exactly when the text has no \<^verbatim>\<open>%\<close>.
\<close>

theorem error_text_is_format:
  "(\<exists>w. getColor Unmarshal Atoi env (Inl e) (fresh src) = Some w \<and>
        status w = Some 500 \<and> body w = doPrintf e \<and> (body w = e \<longleftrightarrow> CHR ''%'' \<notin> set e)) \<and>
   (requestBody \<noteq> [] \<and> requestBody \<noteq> sentinel \<and> Unmarshal requestBody = Inl e \<longrightarrow>
      (\<exists>w. getColor Unmarshal Atoi env (Inr requestBody) (fresh src) = Some w \<and>
        status w = Some 500 \<and> body w = doPrintf e \<and> (body w = e \<longleftrightarrow> CHR ''%'' \<notin> set e))) \<and>
   (decodeRequest Unmarshal requestBody = Inr request \<and> envLatency env \<noteq> [] \<and>
    Atoi (envLatency env) = Inl e \<longrightarrow>
      (\<exists>w. getColor Unmarshal Atoi env (Inr requestBody) (fresh src) = Some w \<and>
        status w = Some 500 \<and> body w = doPrintf e \<and> (body w = e \<longleftrightarrow> CHR ''%'' \<notin> set e))) \<and>
   (decodeRequest Unmarshal requestBody = Inr request \<and>
    (envLatency env = [] \<or> \<not> isl (Atoi (envLatency env))) \<and>
    envErrorRate env \<noteq> [] \<and> Atoi (envErrorRate env) = Inl e \<longrightarrow>
      (\<exists>w. getColor Unmarshal Atoi env (Inr requestBody) (fresh src) = Some w \<and>
        status w = Some 500 \<and> body w = doPrintf e \<and> (body w = e \<longleftrightarrow> CHR ''%'' \<notin> set e)))"
proof -
  have written: "\<And>l w0. status w0 = None \<Longrightarrow> body w0 = [] \<Longrightarrow>
      status (fail500 l e w0) = Some 500 \<and> body (fail500 l e w0) = doPrintf e \<and>
      (body (fail500 l e w0) = e \<longleftrightarrow> CHR ''%'' \<notin> set e)"
    using fail500_open [of _ _ e] by (simp add: doPrintf_identity_iff)
  have fr: "status (fresh src) = None" "body (fresh src) = []" by (simp_all add: fresh_def)
  have p1: "\<exists>w. getColor Unmarshal Atoi env (Inl e) (fresh src) = Some w \<and>
        status w = Some 500 \<and> body w = doPrintf e \<and> (body w = e \<longleftrightarrow> CHR ''%'' \<notin> set e)"
  proof -
    have "getColor Unmarshal Atoi env (Inl e) (fresh src) = Some (fail500 (LogError e) e (fresh src))"
      by (simp add: getColor_def)
    with written [OF fr, of "LogError e"] show ?thesis by blast
  qed
  have p2: "\<exists>w. getColor Unmarshal Atoi env (Inr requestBody) (fresh src) = Some w \<and>
        status w = Some 500 \<and> body w = doPrintf e \<and> (body w = e \<longleftrightarrow> CHR ''%'' \<notin> set e)"
    if "requestBody \<noteq> [] \<and> requestBody \<noteq> sentinel \<and> Unmarshal requestBody = Inl e"
  proof -
    have "getColor Unmarshal Atoi env (Inr requestBody) (fresh src) =
        Some (fail500 (LogBodyError requestBody e) e (fresh src))"
      using that by (simp add: getColor_def decodeRequest_def)
    with written [OF fr, of "LogBodyError requestBody e"] show ?thesis by blast
  qed
  define c where "c = resolvedColor env (colors ! (rand (fresh src) 0 mod 6))"
  define cp where "cp = selectParams c request"
  define w1 where "w1 = drawn (fresh src)"
  have w1: "status w1 = None" "body w1 = []" by (simp_all add: w1_def drawn_fields fresh_def)
  have p3: "\<exists>w. getColor Unmarshal Atoi env (Inr requestBody) (fresh src) = Some w \<and>
        status w = Some 500 \<and> body w = doPrintf e \<and> (body w = e \<longleftrightarrow> CHR ''%'' \<notin> set e)"
    if a: "decodeRequest Unmarshal requestBody = Inr request \<and> envLatency env \<noteq> [] \<and>
      Atoi (envLatency env) = Inl e"
  proof -
    have "delayDecision Atoi env requestBody c cp w1 =
        Inl (fail500 (LogBodyError requestBody e) e w1)"
      using a by (simp add: delayDecision_def)
    then have "getColor Unmarshal Atoi env (Inr requestBody) (fresh src) =
        Some (fail500 (LogBodyError requestBody e) e w1)"
      using a by (simp add: getColor_def serveColor_eq c_def cp_def w1_def)
    with written [OF w1, of "LogBodyError requestBody e"] show ?thesis by blast
  qed
  have p4: "\<exists>w. getColor Unmarshal Atoi env (Inr requestBody) (fresh src) = Some w \<and>
        status w = Some 500 \<and> body w = doPrintf e \<and> (body w = e \<longleftrightarrow> CHR ''%'' \<notin> set e)"
    if a: "decodeRequest Unmarshal requestBody = Inr request \<and>
      (envLatency env = [] \<or> \<not> isl (Atoi (envLatency env))) \<and>
      envErrorRate env \<noteq> [] \<and> Atoi (envErrorRate env) = Inl e"
  proof -
    from delayDecision_ok [where env = env and Atoi = Atoi and b = requestBody and c = c
        and cp = cp and w = w1] a w1 obtain w2 where
      w2: "delayDecision Atoi env requestBody c cp w1 = Inr w2" "status w2 = None" "body w2 = []"
      by auto
    have "failureDecision Atoi env requestBody cp w2 =
        Inl (fail500 (LogBodyError requestBody e) e w2)"
      using a by (simp add: failureDecision_def)
    then have "getColor Unmarshal Atoi env (Inr requestBody) (fresh src) =
        Some (fail500 (LogBodyError requestBody e) e w2)"
      using a w2(1) by (simp add: getColor_def serveColor_eq c_def cp_def w1_def)
    with written [OF w2(2,3), of "LogBodyError requestBody e"] show ?thesis by blast
  qed
  from p1 p2 p3 p4 show ?thesis by blast
qed

theorem error_text_is_format_witness:
  "''%'' \<noteq> [] \<and> ''%'' \<noteq> sentinel \<and>
   (\<lambda>b. Inl (''invalid character '' @ [CHR 0x27] @ ''%'' @ [CHR 0x27] @
       '' looking for beginning of value'')) ''%'' =
     (Inl (''invalid character '' @ [CHR 0x27] @ ''%'' @ [CHR 0x27] @
       '' looking for beginning of value'') :: string + colorParameters list) \<and>
   (\<exists>w. getColor
      (\<lambda>b. Inl (''invalid character '' @ [CHR 0x27] @ ''%'' @ [CHR 0x27] @
         '' looking for beginning of value''))
      (\<lambda>s. Inl (''strconv.Atoi: parsing '' @ quoted s @ '': invalid syntax''))
      \<lparr>color = [], envErrorRate = [], envLatency = []\<rparr> (Inr ''%'') (fresh (\<lambda>n. 0)) = Some w \<and>
      status w = Some 500 \<and>
      body w = ''invalid character '' @ [CHR 0x27] @ ''%!'' @ [CHR 0x27] @
         ''(MISSING) looking for beginning of value'') \<and>
   decodeRequest (\<lambda>b. Inr []) [] = Inr [] \<and>
   envLatency \<lparr>color = [], envErrorRate = [], envLatency = ''1s''\<rparr> \<noteq> [] \<and>
   (\<exists>w. getColor (\<lambda>b. Inr [])
      (\<lambda>s. Inl (''strconv.Atoi: parsing '' @ quoted s @ '': invalid syntax''))
      \<lparr>color = [], envErrorRate = [], envLatency = ''1s''\<rparr> (Inr []) (fresh (\<lambda>n. 0)) = Some w \<and>
      status w = Some 500 \<and>
      body w = ''strconv.Atoi: parsing '' @ quoted ''1s'' @ '': invalid syntax'') \<and>
   envLatency \<lparr>color = [], envErrorRate = ''50%'', envLatency = []\<rparr> = [] \<and>
   envErrorRate \<lparr>color = [], envErrorRate = ''50%'', envLatency = []\<rparr> \<noteq> [] \<and>
   (\<exists>w. getColor (\<lambda>b. Inr [])
      (\<lambda>s. Inl (''strconv.Atoi: parsing '' @ quoted s @ '': invalid syntax''))
      \<lparr>color = [], envErrorRate = ''50%'', envLatency = []\<rparr> (Inr []) (fresh (\<lambda>n. 0)) = Some w \<and>
      status w = Some 500 \<and>
      body w = ''strconv.Atoi: parsing '' @ [CHR 0x22] @ ''50%!'' @ [CHR 0x22] @
         ''(MISSING): invalid syntax'')"
proof -
  let ?A = "\<lambda>s. (Inl (''strconv.Atoi: parsing '' @ quoted s @ '': invalid syntax'')
     :: string + int)"
  let ?ej = "''invalid character '' @ [CHR 0x27] @ ''%'' @ [CHR 0x27] @
       '' looking for beginning of value''"
  let ?Uj = "\<lambda>b :: string. (Inl ?ej :: string + colorParameters list)"
  let ?U = "\<lambda>b :: string. (Inr [] :: string + colorParameters list)"
  let ?e0 = "\<lparr>color = [], envErrorRate = [], envLatency = []\<rparr>"
  let ?el = "\<lparr>color = [], envErrorRate = [], envLatency = ''1s''\<rparr>"
  let ?er = "\<lparr>color = [], envErrorRate = ''50%'', envLatency = []\<rparr>"
  have f1: "doPrintf ?ej = ''invalid character '' @ [CHR 0x27] @ ''%!'' @ [CHR 0x27] @
         ''(MISSING) looking for beginning of value''"
    by code_simp
  have f2: "doPrintf (''strconv.Atoi: parsing '' @ quoted ''1s'' @ '': invalid syntax'') =
      ''strconv.Atoi: parsing '' @ quoted ''1s'' @ '': invalid syntax''"
    by code_simp
  have f3: "doPrintf (''strconv.Atoi: parsing '' @ quoted ''50%'' @ '': invalid syntax'') =
      ''strconv.Atoi: parsing '' @ [CHR 0x22] @ ''50%!'' @ [CHR 0x22] @
         ''(MISSING): invalid syntax''"
    by code_simp
  have h2: "''%'' \<noteq> [] \<and> ''%'' \<noteq> sentinel \<and> ?Uj ''%'' = Inl ?ej"
    by (simp add: sentinel_def)
  have d: "decodeRequest ?U [] = Inr []" by (simp add: decodeRequest_def)
  have h3: "decodeRequest ?U [] = Inr [] \<and> envLatency ?el \<noteq> [] \<and>
      ?A (envLatency ?el) = Inl (''strconv.Atoi: parsing '' @ quoted ''1s'' @ '': invalid syntax'')"
    using d by simp
  have h4: "decodeRequest ?U [] = Inr [] \<and>
      (envLatency ?er = [] \<or> \<not> isl (?A (envLatency ?er))) \<and> envErrorRate ?er \<noteq> [] \<and>
      ?A (envErrorRate ?er) =
        Inl (''strconv.Atoi: parsing '' @ quoted ''50%'' @ '': invalid syntax'')"
    using d by simp
  note t2 = error_text_is_format [where Unmarshal = ?Uj and Atoi = ?A and env = ?e0
      and e = ?ej and requestBody = "''%''" and request = "[]" and src = "\<lambda>n. 0"]
  note t3 = error_text_is_format [where Unmarshal = ?U and Atoi = ?A and env = ?el
      and e = "''strconv.Atoi: parsing '' @ quoted ''1s'' @ '': invalid syntax''"
      and requestBody = "[]" and request = "[]" and src = "\<lambda>n. 0"]
  note t4 = error_text_is_format [where Unmarshal = ?U and Atoi = ?A and env = ?er
      and e = "''strconv.Atoi: parsing '' @ quoted ''50%'' @ '': invalid syntax''"
      and requestBody = "[]" and request = "[]" and src = "\<lambda>n. 0"]
  from t2 h2 have r2: "\<exists>w. getColor ?Uj ?A ?e0 (Inr ''%'') (fresh (\<lambda>n. 0)) = Some w \<and>
      status w = Some 500 \<and> body w = doPrintf ?ej"
    by blast
  from t3 h3 have r3: "\<exists>w. getColor ?U ?A ?el (Inr []) (fresh (\<lambda>n. 0)) = Some w \<and>
      status w = Some 500 \<and>
      body w = doPrintf (''strconv.Atoi: parsing '' @ quoted ''1s'' @ '': invalid syntax'')"
    by blast
  from t4 h4 have r4: "\<exists>w. getColor ?U ?A ?er (Inr []) (fresh (\<lambda>n. 0)) = Some w \<and>
      status w = Some 500 \<and>
      body w = doPrintf (''strconv.Atoi: parsing '' @ quoted ''50%'' @ '': invalid syntax'')"
    by blast
  from r2 r3 r4 h2 d show ?thesis unfolding f1 f2 f3 by simp
qed

end
